theory Spec2Isabelle
  imports Complex_Main "HOL-Library.Sublist" "HOL-Library.Multiset"
begin

section \<open>Version pairs and their merge\<close>

text \<open>
  A slot of a version pair is Python's \<^verbatim>\<open>None\<close> (the line is excluded) or a number:
  \<^verbatim>\<open>0\<close> for "no constraint", a version such as \<^verbatim>\<open>2.7\<close> otherwise. The numbers are only
  compared and maximised, so they are modelled as rationals (\<open>27 / 10\<close> for \<^verbatim>\<open>2.7\<close>).
\<close>

type_synonym slot = "rat option"
type_synonym version_pair = "slot \<times> slot"

datatype error = InvalidVersionException

definition valid_slot :: "slot \<Rightarrow> bool" where
  "valid_slot v = (case v of None \<Rightarrow> True | Some x \<Rightarrow> 0 \<le> x)"

definition valid_pair :: "version_pair \<Rightarrow> bool" where
  "valid_pair p = (valid_slot (fst p) \<and> valid_slot (snd p))"

text \<open>
  Modelled from the spec: the slot merge inside \<^verbatim>\<open>combine_versions\<close> of
  \<^verbatim>\<open>vermin/utility.py\<close> (absent). Rules 2 to 4 of the merge, per slot: a \<^verbatim>\<open>0\<close> takes the
  other side's value, else the excluded marker dominates, else the maximum.
\<close>

definition combine_slot :: "slot \<Rightarrow> slot \<Rightarrow> slot" where
  "combine_slot v1 v2 =
     (if v1 = Some 0 then v2
      else if v2 = Some 0 then v1
      else (case (v1, v2) of
              (Some x, Some y) \<Rightarrow> Some (max x y)
            | _ \<Rightarrow> None))"

text \<open>
  Modelled from the spec: rule 1 of the merge, the conflict test of \<^verbatim>\<open>combine_versions\<close>
  (absent): the two sides exclude opposite major lines. Side \<open>a\<close> carries the excluded
  marker in its 2.x slot and a requirement in its 3.x slot, side \<open>b\<close> a requirement in its
  2.x slot and the excluded marker in its 3.x slot. Rule 1 comes before rule 2, so a slot
  that holds \<^verbatim>\<open>0\<close> counts as a requirement here like any slot that is not the excluded
  marker. A side that excludes both lines requires neither of them and contradicts
  nothing: \<^verbatim>\<open>combine_versions([2.0, 3.0], [None, None])\<close> and the merge of
  \<^verbatim>\<open>[None, None]\<close> with \<^verbatim>\<open>[2.0, None]\<close> return \<^verbatim>\<open>[None, None]\<close>.
\<close>

definition contradicts :: "version_pair \<Rightarrow> version_pair \<Rightarrow> bool" where
  "contradicts a b =
     (fst a = None \<and> snd a \<noteq> None \<and> fst b \<noteq> None \<and> snd b = None)"

text \<open>
  Modelled from the spec: the binary merge of \<^verbatim>\<open>vermin/utility.py\<close> (absent). Rule 1 is
  tried first, from either side; the conflict is the exception
  \<^verbatim>\<open>InvalidVersionException\<close> that \<^verbatim>\<open>tests/general.py\<close> expects.
\<close>

definition combine_versions :: "version_pair \<Rightarrow> version_pair \<Rightarrow> error + version_pair" where
  "combine_versions a b =
     (if contradicts a b \<or> contradicts b a then Inl InvalidVersionException
      else Inr (combine_slot (fst a) (fst b), combine_slot (snd a) (snd b)))"

text \<open>A merge whose left operand is itself the outcome of a merge: a raised conflict
  propagates.\<close>

definition combine_result :: "error + version_pair \<Rightarrow> version_pair \<Rightarrow> error + version_pair" where
  "combine_result r b = (case r of Inl e \<Rightarrow> Inl e | Inr a \<Rightarrow> combine_versions a b)"

definition combine_right :: "version_pair \<Rightarrow> error + version_pair \<Rightarrow> error + version_pair" where
  "combine_right a r = (case r of Inl e \<Rightarrow> Inl e | Inr b \<Rightarrow> combine_versions a b)"

text \<open>A version pair that excludes both major lines.\<close>

definition excludes_both :: "version_pair \<Rightarrow> bool" where
  "excludes_both p = (fst p = None \<and> snd p = None)"

text \<open>Folding a collection of facts into one pair, from \<^verbatim>\<open>[0, 0]\<close> as \<^verbatim>\<open>minimum_versions\<close>
  does: \<^verbatim>\<open>for vers in facts: mins = combine_versions(mins, vers)\<close>.\<close>

definition combine_all :: "version_pair list \<Rightarrow> error + version_pair" where
  "combine_all facts = fold (\<lambda>vers mins. combine_result mins vers) facts (Inr (Some 0, Some 0))"

section \<open>Rule tables and configuration\<close>

text \<open>
  The rule tables of \<^verbatim>\<open>vermin/rules.py\<close> and the configuration object of
  \<^verbatim>\<open>vermin/config.py\<close> are read-only collaborators; their content is a parameter of every
  operation. A dictionary is a map; \<^verbatim>\<open>CODECS_ENCODINGS\<close>, which the resolver iterates, is
  an association list from alias groups to version pairs.
\<close>

record rules =
  MOD_REQS :: "string \<rightharpoonup> version_pair"
  MOD_MEM_REQS :: "string \<rightharpoonup> version_pair"
  KWARGS_REQS :: "(string \<times> string option) \<rightharpoonup> version_pair"
  STRFTIME_REQS :: "string \<rightharpoonup> version_pair"
  ARRAY_TYPECODE_REQS :: "string \<rightharpoonup> version_pair"
  CODECS_ERROR_HANDLERS :: "string \<rightharpoonup> version_pair"
  CODECS_ERRORS_INDICES :: "string \<rightharpoonup> int"
  CODECS_ENCODINGS :: "(string list \<times> version_pair) list"
  CODECS_ENCODINGS_INDICES :: "string \<rightharpoonup> int list"

record config =
  lax_mode :: bool

section \<open>The analysis state\<close>

text \<open>
  The fields of \<^verbatim>\<open>SourceVisitor\<close>, under their names. The diagnostic log and its
  bookkeeping (\<^verbatim>\<open>__output_text\<close>, \<^verbatim>\<open>__line_col_entities\<close>, \<^verbatim>\<open>__line\<close>, \<^verbatim>\<open>__depth\<close>) are
  written but never read back into any observation, flag or map, and are left out.
\<close>

record visitor =
  modules :: "string list"
  members :: "string list"
  printv2 :: bool
  printv3 :: bool
  format27 :: bool
  longv2 :: bool
  bytesv3 :: bool
  fstrings :: bool
  bool_const :: bool
  annotations :: bool
  var_annotations :: bool
  coroutines :: bool
  function_name :: "string option"
  kwargs :: "(string \<times> string option) list"
  strftime_directives :: "string list"
  codecs_error_handlers :: "string list"
  codecs_encodings :: "string list"
  import_mem_mod :: "string \<rightharpoonup> string"
  name_res :: "string \<rightharpoonup> string"
  user_defs :: "string list"
  array_typecodes :: "string list"
  module_as_name :: "string \<rightharpoonup> string"

definition init :: visitor where
  "init = \<lparr> modules = [], members = [], printv2 = False, printv3 = False,
     format27 = False, longv2 = False, bytesv3 = False, fstrings = False,
     bool_const = False, annotations = False, var_annotations = False,
     coroutines = False, function_name = None, kwargs = [],
     strftime_directives = [], codecs_error_handlers = [], codecs_encodings = [],
     import_mem_mod = Map.empty, name_res = Map.empty, user_defs = [],
     array_typecodes = [], module_as_name = Map.empty \<rparr>"

section \<open>Recording observations\<close>

definition add_module :: "string \<Rightarrow> visitor \<Rightarrow> visitor" where
  "add_module name s =
     (if name \<in> set (user_defs s) then s
      else if name \<notin> set (modules s) then s\<lparr>modules := modules s @ [name]\<rparr>
      else s)"

definition add_member :: "rules \<Rightarrow> string \<Rightarrow> visitor \<Rightarrow> visitor" where
  "add_member r member s =
     (if member \<in> set (user_defs s) then s
      else if member \<in> dom (MOD_MEM_REQS r) then s\<lparr>members := members s @ [member]\<rparr>
      else s)"

definition add_kwargs :: "rules \<Rightarrow> string \<Rightarrow> string option \<Rightarrow> visitor \<Rightarrow> visitor" where
  "add_kwargs r function keyword s =
     (if function \<in> set (user_defs s) then s
      else if (function, keyword) \<in> dom (KWARGS_REQS r) \<and> (function, keyword) \<notin> set (kwargs s)
        then s\<lparr>kwargs := kwargs s @ [(function, keyword)]\<rparr>
      else s)"

definition add_strftime_directive :: "string \<Rightarrow> visitor \<Rightarrow> visitor" where
  "add_strftime_directive grp s = s\<lparr>strftime_directives := strftime_directives s @ [grp]\<rparr>"

definition add_array_typecode :: "string \<Rightarrow> visitor \<Rightarrow> visitor" where
  "add_array_typecode typecode s =
     (if typecode \<notin> set (array_typecodes s)
      then s\<lparr>array_typecodes := array_typecodes s @ [typecode]\<rparr> else s)"

definition add_name_res :: "string \<Rightarrow> string \<Rightarrow> visitor \<Rightarrow> visitor" where
  "add_name_res source target s = s\<lparr>name_res := (name_res s)(source \<mapsto> target)\<rparr>"

text \<open>
  Modelled from the spec: \<^verbatim>\<open>reverse_range\<close> of \<^verbatim>\<open>vermin/utility.py\<close> (absent); its values
  are fixed by \<^verbatim>\<open>test_reverse_range\<close>: the indices of the list, last first.
\<close>

definition reverse_range :: "'a list \<Rightarrow> nat list" where
  "reverse_range xs = rev [0..<length xs]"

text \<open>
  The inner loops of \<^verbatim>\<open>__add_user_def\<close>: \<^verbatim>\<open>for i in reverse_range(xs): if xs[i] == ud:
  del(xs[i])\<close>. The indices are computed once, before any deletion; going down, each is
  still in range when it is read.
\<close>

fun del_matching :: "string \<Rightarrow> nat list \<Rightarrow> string list \<Rightarrow> string list" where
  "del_matching ud [] xs = xs"
| "del_matching ud (i # idxs) xs =
     del_matching ud idxs (if xs ! i = ud then take i xs @ drop (Suc i) xs else xs)"

fun retract_user_defs :: "string list \<Rightarrow> visitor \<Rightarrow> visitor" where
  "retract_user_defs [] s = s"
| "retract_user_defs (ud # uds) s =
     retract_user_defs uds
       (let s1 = s\<lparr>modules := del_matching ud (reverse_range (modules s)) (modules s)\<rparr>
        in s1\<lparr>members := del_matching ud (reverse_range (members s1)) (members s1)\<rparr>)"

definition add_user_def :: "string \<Rightarrow> visitor \<Rightarrow> visitor" where
  "add_user_def name s =
     (let s1 = (if name \<notin> set (user_defs s) then s\<lparr>user_defs := user_defs s @ [name]\<rparr> else s)
      in retract_user_defs (user_defs s1) s1)"

section \<open>Strings\<close>

text \<open>
  Modelled from the spec: \<^verbatim>\<open>dotted_name\<close> of \<^verbatim>\<open>vermin/utility.py\<close> (absent). By
  \<^verbatim>\<open>test_dotted_name\<close> it flattens its argument and joins the parts with dots; a call
  \<^verbatim>\<open>dotted_name([mod, rest])\<close> with a list \<^verbatim>\<open>rest\<close> is written \<open>dotted_name (mod # rest)\<close>.
\<close>

fun dotted_name :: "string list \<Rightarrow> string" where
  "dotted_name [] = []"
| "dotted_name [x] = x"
| "dotted_name (x # y # ys) = x @ ''.'' @ dotted_name (y # ys)"

text \<open>\<^verbatim>\<open>s.endswith(suf)\<close>, \<^verbatim>\<open>sub in s\<close> and \<^verbatim>\<open>s.split(d)\<close> of Python strings. A string is a
  list of 8-bit characters: the model covers ASCII text.\<close>

definition endswith :: "string \<Rightarrow> string \<Rightarrow> bool" where
  "endswith s suf = (length suf \<le> length s \<and> drop (length s - length suf) s = suf)"

fun contains :: "string \<Rightarrow> string \<Rightarrow> bool" where
  "contains sub [] = (sub = [])"
| "contains sub (c # cs) = (take (length sub) (c # cs) = sub \<or> contains sub cs)"

fun split_on :: "char \<Rightarrow> string \<Rightarrow> string list" where
  "split_on d [] = [[]]"
| "split_on d (c # cs) =
     (if c = d then [] # split_on d cs
      else (case split_on d cs of [] \<Rightarrow> [[c]] | w # ws \<Rightarrow> (c # w) # ws))"

text \<open>
  \<^verbatim>\<open>STRFTIME_DIRECTIVE_REGEX.findall\<close> for the pattern \<^verbatim>\<open>(%\w)\<close>: the matches from left to
  right, none overlapping. A word character is a letter, a digit or the underscore (the
  ASCII part of \<^verbatim>\<open>\w\<close>).
\<close>

definition is_word_char :: "char \<Rightarrow> bool" where
  "is_word_char c =
     (let n = (of_char c :: nat)
      in (48 \<le> n \<and> n \<le> 57) \<or> (65 \<le> n \<and> n \<le> 90) \<or> n = 95 \<or> (97 \<le> n \<and> n \<le> 122))"

fun findall_directives :: "string \<Rightarrow> string list" where
  "findall_directives (c # d # cs) =
     (if c = CHR ''%'' \<and> is_word_char d then [c, d] # findall_directives cs
      else findall_directives (d # cs))"
| "findall_directives _ = []"

text \<open>\<^verbatim>\<open>s.lower()\<close> on ASCII letters.\<close>

definition lower_char :: "char \<Rightarrow> char" where
  "lower_char c =
     (let n = (of_char c :: nat) in if 65 \<le> n \<and> n \<le> 90 then char_of (n + 32) else c)"

definition lower :: "string \<Rightarrow> string" where
  "lower s = map lower_char s"

section \<open>Syntax trees\<close>

text \<open>
  The input is a tree of Python's \<^verbatim>\<open>ast\<close> module. A class whose handler reads fields has
  a constructor with these fields; every other class is \<open>Node cls children\<close>, its class
  name and its child nodes in field order (\<open>Node ''Module'' body\<close>, \<open>Node ''If'' \<dots>\<close>,
  \<open>Node ''Num'' []\<close>). The expression context of a \<^verbatim>\<open>Name\<close> or an \<^verbatim>\<open>Attribute\<close> is its last
  field and a child node, \<open>Load\<close> or \<open>Store\<close>. Source positions are left out. An \<^verbatim>\<open>alias\<close>, \<^verbatim>\<open>keyword\<close> or \<^verbatim>\<open>arg\<close> is held by its parent as a tuple of its
  fields and is a node of its own (\<open>Alias\<close>, \<open>Keyword\<close>, \<open>FuncArg\<close>) in the list of children.
\<close>

datatype const = CBytes | CBool bool | CNone | CNum

datatype node =
    Import "(string \<times> string option) list"
  | ImportFrom "string option" "(string \<times> string option) list"
  | Alias string "string option"
  | Name string node
  | Call node "node list" "(string option \<times> node) list"
  | Attribute node string node
  | Keyword "string option" node
  | Str string
  | Bytes
  | Constant const
  | NameConstant "bool option"
  | Assign "node list" node
  | AugAssign node node node
  | AnnAssign node node "node option"
  | FunctionDef string node "node list" "node list" "node option"
  | AsyncFunctionDef string node "node list" "node list" "node option"
  | Arguments "(string \<times> node option) list" "node list"
  | FuncArg string "node option"
  | ClassDef string "node list"
  | Node string "node list"

abbreviation Load :: node where
  "Load \<equiv> Node ''Load'' []"

abbreviation Store :: node where
  "Store \<equiv> Node ''Store'' []"

text \<open>\<^verbatim>\<open>ast.iter_child_nodes\<close>: the child nodes, in the order of the fields.\<close>

fun children :: "node \<Rightarrow> node list" where
  "children (Import names) = map (\<lambda>(n, a). Alias n a) names"
| "children (ImportFrom m names) = map (\<lambda>(n, a). Alias n a) names"
| "children (Call func args keywords) = func # args @ map (\<lambda>(a, v). Keyword a v) keywords"
| "children (Name i ctx) = [ctx]"
| "children (Attribute v attr ctx) = [v, ctx]"
| "children (Keyword a v) = [v]"
| "children (Assign targets v) = targets @ [v]"
| "children (AugAssign target op v) = [target, op, v]"
| "children (AnnAssign target annotation v) =
     [target, annotation] @ (case v of None \<Rightarrow> [] | Some x \<Rightarrow> [x])"
| "children (FunctionDef name args body decorator_list returns) =
     args # body @ decorator_list @ (case returns of None \<Rightarrow> [] | Some x \<Rightarrow> [x])"
| "children (AsyncFunctionDef name args body decorator_list returns) =
     args # body @ decorator_list @ (case returns of None \<Rightarrow> [] | Some x \<Rightarrow> [x])"
| "children (Arguments args rest) = map (\<lambda>(n, a). FuncArg n a) args @ rest"
| "children (FuncArg n a) = (case a of None \<Rightarrow> [] | Some x \<Rightarrow> [x])"
| "children (ClassDef name cs) = cs"
| "children (Node cls cs) = cs"
| "children _ = []"

text \<open>\<^verbatim>\<open>node.__class__.__name__\<close>, by which \<^verbatim>\<open>NodeVisitor.visit\<close> finds the handler.\<close>

fun class_name :: "node \<Rightarrow> string" where
  "class_name (Import names) = ''Import''"
| "class_name (ImportFrom m names) = ''ImportFrom''"
| "class_name (Alias n a) = ''alias''"
| "class_name (Name i ctx) = ''Name''"
| "class_name (Call func args keywords) = ''Call''"
| "class_name (Attribute v attr ctx) = ''Attribute''"
| "class_name (Keyword a v) = ''keyword''"
| "class_name (Str t) = ''Str''"
| "class_name Bytes = ''Bytes''"
| "class_name (Constant c) = ''Constant''"
| "class_name (NameConstant c) = ''NameConstant''"
| "class_name (Assign targets v) = ''Assign''"
| "class_name (AugAssign target op v) = ''AugAssign''"
| "class_name (AnnAssign target annotation v) = ''AnnAssign''"
| "class_name (FunctionDef name args body decorator_list returns) = ''FunctionDef''"
| "class_name (AsyncFunctionDef name args body decorator_list returns) = ''AsyncFunctionDef''"
| "class_name (Arguments args rest) = ''arguments''"
| "class_name (FuncArg n a) = ''arg''"
| "class_name (ClassDef name cs) = ''ClassDef''"
| "class_name (Node cls cs) = cls"

text \<open>The number of nodes of a tree; it decreases from a node to its children.\<close>

primrec count :: "node \<Rightarrow> nat" where
  "count (Import names) = Suc (length names)"
| "count (ImportFrom m names) = Suc (length names)"
| "count (Alias n a) = 1"
| "count (Name i ctx) = Suc (count ctx)"
| "count (Call func args keywords) =
     Suc (count func + sum_list (map count args)
          + sum_list (map (\<lambda>p. Suc (snd p)) (map (map_prod id count) keywords)))"
| "count (Attribute v attr ctx) = Suc (count v + count ctx)"
| "count (Keyword a v) = Suc (count v)"
| "count (Str s) = 1"
| "count Bytes = 1"
| "count (Constant c) = 1"
| "count (NameConstant c) = 1"
| "count (Assign targets v) = Suc (sum_list (map count targets) + count v)"
| "count (AugAssign target op v) = Suc (count target + count op + count v)"
| "count (AnnAssign target annotation v) =
     Suc (count target + count annotation
          + (case map_option count v of None \<Rightarrow> 0 | Some k \<Rightarrow> k))"
| "count (FunctionDef name args body decorator_list returns) =
     Suc (count args + sum_list (map count body) + sum_list (map count decorator_list)
          + (case map_option count returns of None \<Rightarrow> 0 | Some k \<Rightarrow> k))"
| "count (AsyncFunctionDef name args body decorator_list returns) =
     Suc (count args + sum_list (map count body) + sum_list (map count decorator_list)
          + (case map_option count returns of None \<Rightarrow> 0 | Some k \<Rightarrow> k))"
| "count (Arguments args rest) =
     Suc (sum_list (map (\<lambda>p. Suc (case snd p of None \<Rightarrow> 0 | Some k \<Rightarrow> k))
                     (map (map_prod id (map_option count)) args))
          + sum_list (map count rest))"
| "count (FuncArg n a) = Suc (case map_option count a of None \<Rightarrow> 0 | Some k \<Rightarrow> k)"
| "count (ClassDef name cs) = Suc (sum_list (map count cs))"
| "count (Node cls cs) = Suc (sum_list (map count cs))"

lemma count_children: "count n = Suc (sum_list (map count (children n)))"
  by (cases n) (auto simp: comp_def case_prod_beta sum_list_triv split: option.splits)

lemma count_child: "c \<in> set (children n) \<Longrightarrow> count c < count n"
  unfolding count_children [of n]
  by (induction "children n") (auto simp: less_Suc_eq_le member_le_sum_list)

text \<open>\<^verbatim>\<open>ast.walk\<close>: the node and its descendants, breadth first, from a queue.\<close>

function walk :: "node list \<Rightarrow> node list" where
  "walk [] = []"
| "walk (n # todo) = n # walk (todo @ children n)"
  by pat_completeness auto
termination
  by (relation "measure (\<lambda>q. sum_list (map count q))") (auto simp: count_children)

text \<open>
  \<^verbatim>\<open>__get_attribute_name\<close>: every \<^verbatim>\<open>Attribute\<close> met by the walk puts its \<^verbatim>\<open>attr\<close> in
  front of the path, then the \<^verbatim>\<open>id\<close> of its value if that is a \<^verbatim>\<open>Name\<close>.
\<close>

definition get_attribute_name :: "node \<Rightarrow> string list" where
  "get_attribute_name n =
     fold (\<lambda>a full_name.
             case a of
               Attribute v attr ctx \<Rightarrow>
                 (case v of Name i c \<Rightarrow> i # attr # full_name | _ \<Rightarrow> attr # full_name)
             | _ \<Rightarrow> full_name)
          (walk [n]) []"

text \<open>
  The string of a string literal: \<^verbatim>\<open>arg.s\<close> where \<^verbatim>\<open>hasattr(arg, "s")\<close>. A string literal
  is \<open>Str s\<close>, for the class \<^verbatim>\<open>ast.Str\<close> and for a \<^verbatim>\<open>Constant\<close> that holds a \<^verbatim>\<open>str\<close>, which
  passes the same \<^verbatim>\<open>isinstance\<close> and \<^verbatim>\<open>hasattr\<close> tests and whose handler does nothing;
  \<open>Constant\<close> is left for the other values. A literal that has an \<^verbatim>\<open>s\<close> which is no
  \<^verbatim>\<open>str\<close> (a byte string, or a number under Python 3.8) makes \<^verbatim>\<open>findall\<close> raise
  \<^verbatim>\<open>TypeError\<close>; such an argument is outside the model, which takes nothing from it.
\<close>

fun str_value :: "node \<Rightarrow> string option" where
  "str_value (Str s) = Some s"
| "str_value _ = None"

section \<open>The handlers of the visitor\<close>

subsection \<open>Codecs arguments\<close>

definition add_codecs_error_handler ::
  "rules \<Rightarrow> string \<Rightarrow> node list \<Rightarrow> (string option \<times> node) list \<Rightarrow> visitor \<Rightarrow> visitor" where
  "add_codecs_error_handler r func args keywords s =
     (case CODECS_ERRORS_INDICES r func of
        None \<Rightarrow> s
      | Some idx \<Rightarrow>
          (let s1 = (if 0 \<le> idx \<and> idx < int (length args)
                     then (case str_value (args ! nat idx) of
                             Some name \<Rightarrow>
                               s\<lparr>codecs_error_handlers := codecs_error_handlers s @ [name]\<rparr>
                           | None \<Rightarrow> s)
                     else s)
           in fold (\<lambda>(arg, v) t.
                      if arg = Some ''errors''
                      then (case str_value v of
                              Some name \<Rightarrow>
                                t\<lparr>codecs_error_handlers := codecs_error_handlers t @ [name]\<rparr>
                            | None \<Rightarrow> t)
                      else t)
                keywords s1))"

definition add_codecs_encoding ::
  "rules \<Rightarrow> string \<Rightarrow> node list \<Rightarrow> (string option \<times> node) list \<Rightarrow> visitor \<Rightarrow> visitor" where
  "add_codecs_encoding r func args keywords s =
     (case CODECS_ENCODINGS_INDICES r func of
        None \<Rightarrow> s
      | Some idxs \<Rightarrow>
          fold (\<lambda>idx s0.
                  let s1 = (if 0 \<le> idx \<and> idx < int (length args)
                            then (case str_value (args ! nat idx) of
                                    Some name \<Rightarrow>
                                      s0\<lparr>codecs_encodings := codecs_encodings s0 @ [name]\<rparr>
                                  | None \<Rightarrow> s0)
                            else s0)
                  in fold (\<lambda>(arg, v) t.
                             if arg \<in> {Some ''encoding'', Some ''data_encoding'',
                                        Some ''file_encoding''}
                             then (case str_value v of
                                     Some name \<Rightarrow>
                                       t\<lparr>codecs_encodings := codecs_encodings t @ [name]\<rparr>
                                   | None \<Rightarrow> t)
                             else t)
                       keywords s1)
               idxs s)"

definition check_codecs_function ::
  "rules \<Rightarrow> string \<Rightarrow> node list \<Rightarrow> (string option \<times> node) list \<Rightarrow> visitor \<Rightarrow> visitor" where
  "check_codecs_function r func args keywords s =
     add_codecs_encoding r func args keywords (add_codecs_error_handler r func args keywords s)"

subsection \<open>User definitions and name resolution\<close>

text \<open>\<^verbatim>\<open>__add_user_def_node\<close>: a \<^verbatim>\<open>Name\<close> gives its \<^verbatim>\<open>id\<close>, a node with an \<^verbatim>\<open>arg\<close> field
  that field; any other target gives nothing.\<close>

fun add_user_def_node :: "node \<Rightarrow> visitor \<Rightarrow> visitor" where
  "add_user_def_node (Name i ctx) s = add_user_def i s"
| "add_user_def_node (FuncArg a ann) s = add_user_def a s"
| "add_user_def_node (Keyword (Some a) v) s = add_user_def a s"
| "add_user_def_node _ s = s"

text \<open>\<^verbatim>\<open>__add_name_res_assign_node\<close>, from the assigned value (if the node has one) and
  the targets of the assignment.\<close>

definition value_name :: "node option \<Rightarrow> string option" where
  "value_name v =
     (case v of
        Some (Call func args keywords) \<Rightarrow>
          (case func of
             Name i ctx \<Rightarrow> Some i
           | Attribute w attr ctx \<Rightarrow> Some (dotted_name (get_attribute_name func))
           | _ \<Rightarrow> None)
      | Some (Attribute w attr ctx) \<Rightarrow>
          Some (dotted_name (get_attribute_name (Attribute w attr ctx)))
      | _ \<Rightarrow> None)"

definition add_name_res_assign_node :: "node option \<Rightarrow> node list \<Rightarrow> visitor \<Rightarrow> visitor" where
  "add_name_res_assign_node v targets s =
     (case value_name v of
        None \<Rightarrow> s
      | Some vn \<Rightarrow>
          fold (\<lambda>target t. case target of Name target_name ctx \<Rightarrow> add_name_res target_name vn t
                                          | _ \<Rightarrow> t)
               targets s)"

subsection \<open>Imports\<close>

definition visit_Import :: "rules \<Rightarrow> (string \<times> string option) list \<Rightarrow> visitor \<Rightarrow> visitor" where
  "visit_Import r names s =
     fold (\<lambda>(name, asname) t.
             let t1 = add_member r name (add_module name t)
             in (case asname of
                   None \<Rightarrow> t1
                 | Some a \<Rightarrow> t1\<lparr>module_as_name := (module_as_name t1)(a \<mapsto> name)\<rparr>))
          names s"

definition visit_ImportFrom ::
  "rules \<Rightarrow> string option \<Rightarrow> (string \<times> string option) list \<Rightarrow> visitor \<Rightarrow> visitor" where
  "visit_ImportFrom r m names s =
     (case m of
        None \<Rightarrow> s
      | Some mname \<Rightarrow>
          fold (\<lambda>(name, asname) t.
                  let t1 = (if name = ''*'' then t
                            else (let comb_name = mname @ ''.'' @ name
                                  in add_member r name
                                       (add_member r comb_name
                                         (add_module comb_name
                                           (t\<lparr>import_mem_mod := (import_mem_mod t)(name \<mapsto> mname)\<rparr>)))))
                  in (case asname of
                        None \<Rightarrow> t1
                      | Some a \<Rightarrow>
                          t1\<lparr>module_as_name := (module_as_name t1)(a \<mapsto> mname @ ''.'' @ name)\<rparr>))
               names (add_module mname s))"

subsection \<open>Calls\<close>

text \<open>The part of \<^verbatim>\<open>visit_Call\<close> before \<^verbatim>\<open>generic_visit\<close>; after it, the handler resets
  \<^verbatim>\<open>__function_name\<close>.\<close>

definition visit_Call ::
  "rules \<Rightarrow> node \<Rightarrow> node list \<Rightarrow> (string option \<times> node) list \<Rightarrow> visitor \<Rightarrow> visitor" where
  "visit_Call r func args keywords s =
     (let s1 =
        (case func of
           Name i ctx \<Rightarrow>
             (let sa = add_member r i (s\<lparr>function_name := Some i\<rparr>);
                  sb = (case import_mem_mod sa i of
                          Some m \<Rightarrow> check_codecs_function r (m @ ''.'' @ i) args keywords sa
                        | None \<Rightarrow>
                            (case module_as_name sa i of
                               Some name \<Rightarrow> check_codecs_function r name args keywords sa
                             | None \<Rightarrow> sa))
              in if i = ''print'' then sb\<lparr>printv3 := True\<rparr>
                 else if i = ''array'' \<or> module_as_name sb i = Some ''array.array''
                 then fold (\<lambda>arg t. case arg of Str typecode \<Rightarrow> add_array_typecode typecode t
                                               | _ \<Rightarrow> t)
                        args sb
                 else sb)
         | Attribute v attr ctx \<Rightarrow>
             (if attr = ''format'' \<and> (case v of Str t \<Rightarrow> contains ''{}'' t | _ \<Rightarrow> False)
              then s\<lparr>format27 := True\<rparr>
              else if attr = ''strftime'' \<or> attr = ''strptime''
              then fold (\<lambda>arg t. case str_value arg of
                                    Some text \<Rightarrow> fold add_strftime_directive (findall_directives text) t
                                  | None \<Rightarrow> t)
                     args s
              else s)
         | _ \<Rightarrow> s)
      in (case func of
            Attribute v attr ctx \<Rightarrow>
              (let fn = dotted_name (get_attribute_name func)
               in check_codecs_function r fn args keywords (s1\<lparr>function_name := Some fn\<rparr>))
          | _ \<Rightarrow> s1))"

subsection \<open>Attribute access and keyword arguments\<close>

text \<open>
  The loop \<^verbatim>\<open>for mod in self.__modules\<close> of \<^verbatim>\<open>visit_Attribute\<close> runs over the list while
  \<^verbatim>\<open>__add_module\<close> may append to it, so it is a loop on the index against the current
  length. It appends one path at most, which bounds it.
\<close>

function attribute_modules_loop ::
  "rules \<Rightarrow> string \<Rightarrow> string list \<Rightarrow> nat \<Rightarrow> visitor \<Rightarrow> visitor" where
  "attribute_modules_loop r base rest i s =
     (if i < length (modules s)
      then (let m = modules s ! i
            in attribute_modules_loop r base rest (Suc i)
                 (if base = m then add_module (dotted_name (base # rest)) s
                  else if endswith m base then add_member r (dotted_name (m # rest)) s
                  else s))
      else s)"
  by pat_completeness auto
termination
  by (relation "measure (\<lambda>(r, base, rest, i, s).
        length (modules s)
        + (if dotted_name (base # rest) \<in> set (modules s)
              \<or> dotted_name (base # rest) \<in> set (user_defs s)
           then 0 else 1) - i)")
     (auto simp: add_module_def add_member_def Let_def)

declare attribute_modules_loop.simps [simp del]

definition visit_Attribute :: "rules \<Rightarrow> node \<Rightarrow> visitor \<Rightarrow> visitor" where
  "visit_Attribute r n s =
     (case get_attribute_name n of
        [] \<Rightarrow> s
      | base # rest \<Rightarrow>
          (let s1 = attribute_modules_loop r base rest 0 s;
               s2 = add_member r (dotted_name (base # rest)) s1
           in (case name_res s2 base of
                 None \<Rightarrow> s2
               | Some res \<Rightarrow>
                   (case import_mem_mod s2 res of
                      Some m \<Rightarrow> add_member r (dotted_name (m # res # rest)) s2
                    | None \<Rightarrow> add_member r (dotted_name (res # rest)) s2))))"

definition visit_keyword :: "rules \<Rightarrow> string option \<Rightarrow> visitor \<Rightarrow> visitor" where
  "visit_keyword r arg s =
     (case function_name s of
        None \<Rightarrow> s
      | Some fn \<Rightarrow>
          (let s1 = add_kwargs r fn arg s;
               s2 = (case import_mem_mod s1 fn of
                       Some m \<Rightarrow> add_kwargs r (dotted_name [m, fn]) arg s1
                     | None \<Rightarrow> s1)
           in (case split_on CHR ''.'' fn of
                 [] \<Rightarrow> s2
               | base # rest \<Rightarrow>
                   (let s3 = (case import_mem_mod s2 base of
                                Some m \<Rightarrow> add_kwargs r (dotted_name [m, fn]) arg s2
                              | None \<Rightarrow> s2)
                    in (case name_res s3 base of
                          None \<Rightarrow> s3
                        | Some res \<Rightarrow>
                            (case import_mem_mod s3 res of
                               Some m \<Rightarrow> add_kwargs r (dotted_name (m # res # rest)) arg s3
                             | None \<Rightarrow> add_kwargs r (dotted_name (res # rest)) arg s3))))))"

subsection \<open>Dispatch\<close>

text \<open>
  Every handler has the shape: statements, at most one call of \<^verbatim>\<open>generic_visit\<close>,
  statements. \<open>visit_pre\<close> is the first part by class, \<open>visit_post\<close> the last, and
  \<open>descends\<close> says whether \<^verbatim>\<open>generic_visit\<close> is called in between. A class without a
  handler falls to \<^verbatim>\<open>generic_visit\<close> itself.
\<close>

definition lax_classes :: "string list" where
  "lax_classes = [''If'', ''IfExp'', ''For'', ''While'', ''Try'', ''TryExcept'', ''BoolOp'']"

text \<open>The classes whose handler never calls \<^verbatim>\<open>generic_visit\<close>: eight handlers with a body,
  then the handlers that only \<^verbatim>\<open>pass\<close>.\<close>

definition no_generic_visit :: "string list" where
  "no_generic_visit =
     [''ImportFrom'', ''Name'', ''Attribute'', ''keyword'', ''Bytes'', ''Constant'',
      ''JoinedStr'', ''NameConstant'',
      ''alias'', ''Load'', ''Store'', ''Pass'', ''Num'', ''Not'', ''Add'', ''Sub'', ''Mult'',
      ''Div'', ''BitAnd'', ''Or'', ''BitOr'', ''Eq'', ''NotEq'', ''Lt'', ''Gt'', ''In'', ''Is'',
      ''Continue'', ''Break'', ''Mod'']"

fun descends :: "config \<Rightarrow> node \<Rightarrow> bool" where
  "descends cfg (ImportFrom m names) = False"
| "descends cfg (Alias n a) = False"
| "descends cfg (Name i ctx) = False"
| "descends cfg (Attribute v attr ctx) = False"
| "descends cfg (Keyword a v) = False"
| "descends cfg Bytes = False"
| "descends cfg (Constant c) = False"
| "descends cfg (NameConstant c) = False"
| "descends cfg (Node cls cs) =
     (if cls \<in> set lax_classes then \<not> lax_mode cfg else cls \<notin> set no_generic_visit)"
| "descends cfg _ = True"

fun visit_pre :: "rules \<Rightarrow> node \<Rightarrow> visitor \<Rightarrow> visitor" where
  "visit_pre r (Import names) s = visit_Import r names s"
| "visit_pre r (ImportFrom m names) s = visit_ImportFrom r m names s"
| "visit_pre r (Name i ctx) s = (if i = ''long'' then s\<lparr>longv2 := True\<rparr> else s)"
| "visit_pre r (Call func args keywords) s = visit_Call r func args keywords s"
| "visit_pre r (Attribute v attr ctx) s = visit_Attribute r (Attribute v attr ctx) s"
| "visit_pre r (Keyword a v) s = visit_keyword r a s"
| "visit_pre r Bytes s = s\<lparr>bytesv3 := True\<rparr>"
| "visit_pre r (Constant c) s = (if c = CBytes then s\<lparr>bytesv3 := True\<rparr> else s)"
| "visit_pre r (NameConstant c) s =
     (if c = Some True \<or> c = Some False then s\<lparr>bool_const := True\<rparr> else s)"
| "visit_pre r (Assign targets v) s =
     add_name_res_assign_node (Some v) targets (fold add_user_def_node targets s)"
| "visit_pre r (AugAssign target op v) s =
     add_name_res_assign_node (Some v) [target] (add_user_def_node target s)"
| "visit_pre r (AnnAssign target annotation v) s =
     add_name_res_assign_node v [target] (add_user_def_node target s)"
| "visit_pre r (FunctionDef name args body decorator_list returns) s = add_user_def name s"
| "visit_pre r (AsyncFunctionDef name args body decorator_list returns) s =
     add_user_def name (s\<lparr>coroutines := True\<rparr>)"
| "visit_pre r (ClassDef name cs) s = add_user_def name s"
| "visit_pre r (Node cls cs) s =
     (if cls = ''Print'' then s\<lparr>printv2 := True\<rparr>
      else if cls = ''Await'' then s\<lparr>coroutines := True\<rparr>
      else if cls = ''JoinedStr'' then s\<lparr>fstrings := True\<rparr>
      else s)"
| "visit_pre r _ s = s"

text \<open>The end of \<^verbatim>\<open>__handle_FunctionDef\<close>: a return annotation, or else an annotated
  parameter, sets the annotation flag.\<close>

definition handle_FunctionDef_annotations :: "node \<Rightarrow> node option \<Rightarrow> visitor \<Rightarrow> visitor" where
  "handle_FunctionDef_annotations args returns s =
     (if returns \<noteq> None then s\<lparr>annotations := True\<rparr>
      else (case args of
              Arguments as rest \<Rightarrow>
                (if list_ex (\<lambda>(n, ann). ann \<noteq> None) as then s\<lparr>annotations := True\<rparr> else s)
            | _ \<Rightarrow> s))"

fun visit_post :: "node \<Rightarrow> visitor \<Rightarrow> visitor" where
  "visit_post (Call func args keywords) s = s\<lparr>function_name := None\<rparr>"
| "visit_post (AnnAssign target annotation v) s =
     s\<lparr>annotations := True, var_annotations := True\<rparr>"
| "visit_post (FunctionDef name args body decorator_list returns) s =
     handle_FunctionDef_annotations args returns s"
| "visit_post (AsyncFunctionDef name args body decorator_list returns) s =
     handle_FunctionDef_annotations args returns s"
| "visit_post _ s = s"

text \<open>
  \<^verbatim>\<open>NodeVisitor.visit\<close> with \<^verbatim>\<open>generic_visit\<close>: the handler of the node, which visits the
  children in order where it descends. The handlers are parameters, so that the same
  traversal can also log the nodes it dispatches.
\<close>

function traverse ::
  "(node \<Rightarrow> 'a \<Rightarrow> 'a) \<Rightarrow> (node \<Rightarrow> 'a \<Rightarrow> 'a) \<Rightarrow> config \<Rightarrow> node \<Rightarrow> 'a \<Rightarrow> 'a" where
  "traverse pre post cfg n s =
     post n (if descends cfg n then fold (traverse pre post cfg) (children n) (pre n s)
             else pre n s)"
  by pat_completeness auto
termination
  by (relation "measure (\<lambda>(pre, post, cfg, n, s). count n)") (auto simp: count_child)

declare traverse.simps [simp del]

definition visit :: "config \<Rightarrow> rules \<Rightarrow> node \<Rightarrow> visitor \<Rightarrow> visitor" where
  "visit cfg r = traverse (visit_pre r) visit_post cfg"

definition generic_visit :: "config \<Rightarrow> rules \<Rightarrow> node \<Rightarrow> visitor \<Rightarrow> visitor" where
  "generic_visit cfg r n s = fold (visit cfg r) (children n) s"

text \<open>The nodes that the traversal dispatches to a handler, in order; and all the nodes
  of a tree, depth first.\<close>

definition dispatched :: "config \<Rightarrow> node \<Rightarrow> node list" where
  "dispatched cfg n = traverse (\<lambda>m log. log @ [m]) (\<lambda>m log. log) cfg n []"

function nodes :: "node \<Rightarrow> node list" where
  "nodes n = n # concat (map nodes (children n))"
  by pat_completeness auto
termination
  by (relation "measure count") (auto simp: count_child)

declare nodes.simps [simp del]

section \<open>The resolver\<close>

text \<open>
  \<^verbatim>\<open>minimum_versions\<close>. A conflict raised by one merge ends the whole computation, so the
  running value is \<open>error + version_pair\<close> once the first merge has been tried.
\<close>

definition flag_step :: "bool \<Rightarrow> version_pair \<Rightarrow> error + version_pair \<Rightarrow> error + version_pair" where
  "flag_step flag vers mins = (if flag then combine_result mins vers else mins)"

definition table_fold ::
  "('k \<rightharpoonup> version_pair) \<Rightarrow> 'k list \<Rightarrow> error + version_pair \<Rightarrow> error + version_pair" where
  "table_fold table keys mins =
     fold (\<lambda>k m. case table k of Some vers \<Rightarrow> combine_result m vers | None \<Rightarrow> m) keys mins"

definition encodings_fold ::
  "(string list \<times> version_pair) list \<Rightarrow> string list \<Rightarrow> error + version_pair
     \<Rightarrow> error + version_pair" where
  "encodings_fold table encodings mins =
     fold (\<lambda>encoding m0.
             fold (\<lambda>(encs, vers) m. if lower encoding \<in> set encs then combine_result m vers else m)
                  table m0)
          encodings mins"

definition minimum_versions :: "rules \<Rightarrow> visitor \<Rightarrow> error + version_pair" where
  "minimum_versions r s =
     (let mins0 = (Some 0, Some 0);
          mins1 = (if printv2 s then (Some 2, snd mins0) else mins0);
          m = flag_step (printv3 s) (Some 2, Some 3) (Inr mins1);
          m = flag_step (format27 s) (Some (27 / 10), Some 3) m;
          m = flag_step (longv2 s) (Some 2, None) m;
          m = (if bytesv3 s then map_sum id (\<lambda>mins. (fst mins, Some 3)) m else m);
          m = flag_step (fstrings s) (None, Some (36 / 10)) m;
          m = flag_step (bool_const s) (Some (22 / 10), Some 3) m;
          m = flag_step (annotations s) (None, Some 3) m;
          m = flag_step (var_annotations s) (None, Some (36 / 10)) m;
          m = flag_step (coroutines s) (None, Some (35 / 10)) m;
          m = table_fold (STRFTIME_REQS r) (strftime_directives s) m;
          m = table_fold (ARRAY_TYPECODE_REQS r) (array_typecodes s) m;
          m = table_fold (CODECS_ERROR_HANDLERS r) (codecs_error_handlers s) m;
          m = encodings_fold (CODECS_ENCODINGS r) (codecs_encodings s) m;
          m = table_fold (MOD_REQS r) (modules s) m;
          m = table_fold (MOD_MEM_REQS r) (members s) m
      in table_fold (KWARGS_REQS r) (kwargs s) m)"

text \<open>Rule tables without any entry, and the default configuration.\<close>

definition no_rules :: rules where
  "no_rules = \<lparr> MOD_REQS = Map.empty, MOD_MEM_REQS = Map.empty, KWARGS_REQS = Map.empty,
     STRFTIME_REQS = Map.empty, ARRAY_TYPECODE_REQS = Map.empty,
     CODECS_ERROR_HANDLERS = Map.empty, CODECS_ERRORS_INDICES = Map.empty,
     CODECS_ENCODINGS = [], CODECS_ENCODINGS_INDICES = Map.empty \<rparr>"

definition strict :: config where
  "strict = \<lparr> lax_mode = False \<rparr>"

definition lax :: config where
  "lax = \<lparr> lax_mode = True \<rparr>"

section \<open>Predicates of the statements\<close>

text \<open>A name is shadowed in a state: it is user-defined and observed neither as a module
  nor as a member.\<close>

definition shadowed :: "string \<Rightarrow> visitor \<Rightarrow> bool" where
  "shadowed name s =
     (name \<in> set (user_defs s) \<and> name \<notin> set (modules s) \<and> name \<notin> set (members s))"

text \<open>A merge outcome that, if it is a pair, keeps at least one major line.\<close>

definition one_line_kept :: "error + version_pair \<Rightarrow> bool" where
  "one_line_kept m = (case m of Inl e \<Rightarrow> True | Inr p \<Rightarrow> \<not> excludes_both p)"

text \<open>A slot that is excluded or at least 3.0, and a resolver outcome, if it is a pair,
  with such a 3.x slot.\<close>

definition floor3 :: "slot \<Rightarrow> bool" where
  "floor3 v = (case v of None \<Rightarrow> True | Some x \<Rightarrow> 3 \<le> x)"

definition result_floor3 :: "error + version_pair \<Rightarrow> bool" where
  "result_floor3 m = (case m of Inl e \<Rightarrow> True | Inr mins \<Rightarrow> floor3 (snd mins))"

text \<open>Two entries of the rule tables that \<^verbatim>\<open>tests/general.py\<close> documents: the module
  \<^verbatim>\<open>abc\<close> requires \<open>(2.6, 3.0)\<close> and its member \<^verbatim>\<open>abc.ABC\<close> requires \<open>(None, 3.4)\<close>.\<close>

definition test_rules :: rules where
  "test_rules = no_rules\<lparr>
     MOD_REQS := [''abc'' \<mapsto> (Some (26 / 10), Some 3)],
     MOD_MEM_REQS := [''abc.ABC'' \<mapsto> (None, Some (34 / 10))] \<rparr>"

section \<open>The merge: algebraic laws\<close>

lemmas combine_defs =
  combine_versions_def contradicts_def combine_slot_def
  combine_right_def combine_result_def

lemma combine_slot_commute: "combine_slot v w = combine_slot w v"
  by (auto simp: combine_slot_def max.commute split: option.splits)

lemma combine_slot_assoc:
  "combine_slot (combine_slot u v) w = combine_slot u (combine_slot v w)"
  by (auto simp: combine_slot_def max.assoc split: option.splits)

lemma combine_slot_None: "combine_slot v w = None \<longleftrightarrow> v = None \<or> w = None"
  by (auto simp: combine_slot_def split: option.splits)

lemma combine_versions_commute: "combine_versions a b = combine_versions b a"
  by (auto simp: combine_versions_def combine_slot_commute)

lemma combine_assoc_when_returning:
  assumes "combine_result (combine_versions a b) c = Inr x"
    and "combine_right a (combine_versions b c) = Inr y"
  shows "x = y"
  using assms
  by (auto simp: combine_versions_def combine_right_def combine_result_def
      combine_slot_assoc split: if_splits sum.splits)

lemma combine_assoc_one_line_kept:
  assumes "\<not> excludes_both a" "\<not> excludes_both b" "\<not> excludes_both c"
  shows "combine_result (combine_versions a b) c = combine_right a (combine_versions b c)"
proof -
  obtain a2 a3 b2 b3 c2 c3 where abc: "a = (a2, a3)" "b = (b2, b3)" "c = (c2, c3)"
    by (cases a, cases b, cases c) blast
  show ?thesis
    using assms unfolding abc
    by (simp add: combine_versions_def contradicts_def combine_right_def combine_result_def
        excludes_both_def combine_slot_None combine_slot_assoc)
       blast
qed


lemma one_line_kept_combine:
  assumes "\<not> excludes_both x" "one_line_kept m"
  shows "one_line_kept (combine_result m x)"
proof (cases m)
  case (Inl e)
  then show ?thesis by (simp add: one_line_kept_def combine_result_def)
next
  case (Inr p)
  obtain p2 p3 x2 x3 where px: "p = (p2, p3)" "x = (x2, x3)"
    by (cases p, cases x) blast
  show ?thesis
    using assms unfolding Inr px
    by (simp add: one_line_kept_def combine_result_def combine_versions_def contradicts_def
        excludes_both_def combine_slot_None)
       blast
qed

lemma combine_result_swap:
  assumes "\<not> excludes_both x" "\<not> excludes_both y" "one_line_kept m"
  shows "combine_result (combine_result m y) x = combine_result (combine_result m x) y"
proof (cases m)
  case (Inl e)
  then show ?thesis by (simp add: combine_result_def)
next
  case (Inr p)
  obtain p2 p3 x2 x3 y2 y3 where pxy: "p = (p2, p3)" "x = (x2, x3)" "y = (y2, y3)"
    by (cases p, cases x, cases y) blast
  have slot: "combine_slot (combine_slot u v) w = combine_slot (combine_slot u w) v" for u v w
    by (metis combine_slot_assoc combine_slot_commute)
  show ?thesis
    using assms unfolding Inr pxy
    by (simp add: one_line_kept_def combine_result_def combine_versions_def contradicts_def
        excludes_both_def combine_slot_None slot)
       blast
qed

lemma combine_all_permuted:
  assumes "\<forall>p \<in> set xs. \<not> excludes_both p" and "mset xs = mset ys"
  shows "combine_all xs = combine_all ys"
  unfolding combine_all_def
proof (rule fold_permuted_eq [where P = one_line_kept])
  show "mset xs = mset ys" by fact
  show "one_line_kept (Inr (Some 0, Some 0))"
    by (simp add: one_line_kept_def excludes_both_def)
  show "one_line_kept (combine_result z x)" if "x \<in> set xs" "one_line_kept z" for x z
    using that assms(1) by (simp add: one_line_kept_combine)
  show "combine_result (combine_result z y) x = combine_result (combine_result z x) y"
    if "x \<in> set xs" "y \<in> set xs" "one_line_kept z" for x y z
    using that assms(1) by (simp add: combine_result_swap)
qed

text \<open>The merge on the inputs of \<^verbatim>\<open>test_combine_versions\<close> and of the spec's examples:
  the values that the tests expect.\<close>

lemma combine_versions_tests:
  "combine_versions (Some 2, Some 3) (Some 2, Some (31 / 10)) = Inr (Some 2, Some (31 / 10))"
  "combine_versions (Some (21 / 10), Some 3) (Some 2, Some 3) = Inr (Some (21 / 10), Some 3)"
  "combine_versions (Some 2, Some 3) (None, Some 3) = Inr (None, Some 3)"
  "combine_versions (Some 2, None) (Some 2, Some 3) = Inr (Some 2, None)"
  "combine_versions (Some 2, Some 3) (None, None) = Inr (None, None)"
  "combine_versions (None, None) (Some 2, Some 3) = Inr (None, None)"
  "combine_versions (Some 2, None) (None, Some 3) = Inl InvalidVersionException"
  "combine_versions (None, Some 3) (Some 2, None) = Inl InvalidVersionException"
  "combine_versions (Some 0, Some 3) (Some 0, Some 3) = Inr (Some 0, Some 3)"
  "combine_versions (Some 0, Some 3) (Some 2, Some 3) = Inr (Some 2, Some 3)"
  "combine_versions (Some 2, Some 3) (Some 0, Some 3) = Inr (Some 2, Some 3)"
  "combine_versions (Some 2, Some 0) (Some 2, Some 3) = Inr (Some 2, Some 3)"
  "combine_versions (Some 2, Some 3) (Some 2, Some 0) = Inr (Some 2, Some 3)"
  "combine_versions (Some 2, Some 3) (None, Some (34 / 10)) = Inr (None, Some (34 / 10))"
  "combine_versions (None, None) (Some 2, None) = Inr (None, None)"
  "combine_versions (None, Some 0) (Some 0, None) = Inl InvalidVersionException"
  "combine_versions (Some 0, Some 0) x = Inr x"
  by (simp_all add: combine_versions_def contradicts_def combine_slot_def)

text \<open>
  C1 (as stated): the merge is commutative and associative for all valid version pairs,
  so that folding in any order yields the same result. It is not associative: with
  \<open>a = (2.0, None)\<close>, \<open>b = (None, 3.0)\<close> and \<open>c = (None, None)\<close>, merging \<open>a\<close> with \<open>b\<close>
  raises the conflict, while merging \<open>b\<close> with \<open>c\<close> first gives \<open>(None, None)\<close>, which
  absorbs \<open>a\<close> without a conflict.
\<close>

theorem C1_combine_assoc_counterexample:
  "valid_pair (Some 2, None) \<and> valid_pair (None, Some 3) \<and> valid_pair (None, None) \<and>
   combine_result (combine_versions (Some 2, None) (None, Some 3)) (None, None)
     = Inl InvalidVersionException \<and>
   combine_right (Some 2, None) (combine_versions (None, Some 3) (None, None))
     = Inr (None, None)"
  by (simp add: combine_defs valid_pair_def valid_slot_def)

text \<open>
  C1 (amended): the merge is commutative for all version pairs, the conflict included.
  It is associative, the conflict included, for all version pairs none of which excludes
  both major lines, and folding a collection of such pairs yields the same result in
  any order. For arbitrary pairs the two groupings return the same pair whenever both of
  them return one.
\<close>

theorem C1_combine_commutative_assoc:
  "combine_versions a b = combine_versions b a \<and>
   (\<not> excludes_both a \<and> \<not> excludes_both b \<and> \<not> excludes_both c \<longrightarrow>
      combine_result (combine_versions a b) c = combine_right a (combine_versions b c)) \<and>
   ((\<forall>p \<in> set xs. \<not> excludes_both p) \<and> mset xs = mset ys \<longrightarrow>
      combine_all xs = combine_all ys) \<and>
   (combine_result (combine_versions a b) c = Inr x \<and>
    combine_right a (combine_versions b c) = Inr y \<longrightarrow> x = y)"
  using combine_versions_commute combine_assoc_one_line_kept combine_all_permuted
    combine_assoc_when_returning
  by blast

theorem C1_combine_commutative_assoc_witness:
  "combine_versions (Some 2, Some 3) (None, Some (17 / 5))
     = combine_versions (None, Some (17 / 5)) (Some 2, Some 3) \<and>
   combine_result (combine_versions (Some 2, None) (Some 2, Some 3)) (None, Some 3)
     = Inl InvalidVersionException \<and>
   combine_right (Some 2, None) (combine_versions (Some 2, Some 3) (None, Some 3))
     = Inl InvalidVersionException \<and>
   combine_all [(Some (13 / 5), Some 3), (None, Some (17 / 5)), (Some 2, Some 3)]
     = Inr (None, Some (17 / 5)) \<and>
   combine_all [(Some 2, Some 3), (Some (13 / 5), Some 3), (None, Some (17 / 5))]
     = Inr (None, Some (17 / 5)) \<and>
   combine_result (combine_versions (Some 2, Some 3) (Some 0, Some 3)) (None, Some (17 / 5))
     = Inr (None, Some (17 / 5)) \<and>
   combine_right (Some 2, Some 3) (combine_versions (Some 0, Some 3) (None, Some (17 / 5)))
     = Inr (None, Some (17 / 5))"
  using C1_combine_commutative_assoc
      [where a = "(Some 2, None)" and b = "(Some 2, Some 3)" and c = "(None, Some 3)"
         and xs = "[(Some (13 / 5), Some 3), (None, Some (17 / 5)), (Some 2, Some 3)]"
         and ys = "[(Some 2, Some 3), (Some (13 / 5), Some 3), (None, Some (17 / 5))]"]
    C1_combine_commutative_assoc
      [where a = "(Some 2, Some 3)" and b = "(Some 0, Some 3)" and c = "(None, Some (17 / 5))"
         and x = "(None, Some (17 / 5))" and y = "(None, Some (17 / 5))"
         and xs = "[]" and ys = "[]"]
  by (simp add: combine_defs combine_all_def excludes_both_def)

text \<open>
  C2: a pair that keeps only the 2.x line, \<open>(x, None)\<close> with a concrete \<open>x\<close> such as
  \<open>(2.0, None)\<close>, merged with a pair that keeps only the 3.x line, \<open>(None, y)\<close> such as
  \<open>(None, 3.0)\<close>, raises the conflict in either argument order and returns no pair.
\<close>

theorem C2_opposite_lines_conflict:
  assumes "x \<noteq> 0" and "y \<noteq> 0"
  shows "combine_versions (Some x, None) (None, Some y) = Inl InvalidVersionException \<and>
         combine_versions (None, Some y) (Some x, None) = Inl InvalidVersionException"
  using assms by (simp add: combine_versions_def contradicts_def)

theorem C2_opposite_lines_conflict_witness:
  "(2::rat) \<noteq> 0 \<and> (3::rat) \<noteq> 0 \<and>
   combine_versions (Some 2, None) (None, Some 3) = Inl InvalidVersionException \<and>
   combine_versions (None, Some 3) (Some 2, None) = Inl InvalidVersionException"
  using C2_opposite_lines_conflict [of 2 3] by simp

section \<open>The traversal\<close>

lemma visit_unfold:
  "visit cfg r n s =
     visit_post n (if descends cfg n then fold (visit cfg r) (children n) (visit_pre r n s)
                   else visit_pre r n s)"
  unfolding visit_def by (subst traverse.simps) (rule refl)

lemma lax_class_pre: "cls \<in> set lax_classes \<Longrightarrow> visit_pre r (Node cls body) s = s"
  by (auto simp: lax_classes_def)

text \<open>
  C8 (as stated): under lax mode the bodies of conditional, loop, exception and
  boolean-operator constructs are skipped, so that nothing is recorded from inside them.
  Not of every such construct: \<^verbatim>\<open>AsyncFor\<close> and \<^verbatim>\<open>TryFinally\<close> have no handler and are
  traversed under lax mode too. The body of an \<^verbatim>\<open>async for\<close> sets the legacy-long flag,
  and an import inside a \<^verbatim>\<open>try\<close> \<^verbatim>\<open>finally\<close> is recorded.
\<close>

theorem C8_lax_mode_counterexample:
  "lax_mode lax \<and>
   longv2 (visit lax no_rules
     (Node ''AsyncFor''
        [Name ''x'' Store, Name ''xs'' Load,
         Node ''Expr'' [Call (Name ''long'' Load) [Node ''Num'' []] []]]) init) \<and>
   modules (visit lax no_rules
     (Node ''TryFinally'' [Import [(''abc'', None)], Node ''Pass'' []]) init) = [''abc'']"
  by code_simp

text \<open>
  C8 (amended): a node of one of the seven classes \<^verbatim>\<open>If\<close>, \<^verbatim>\<open>IfExp\<close>, \<^verbatim>\<open>For\<close>, \<^verbatim>\<open>While\<close>,
  \<^verbatim>\<open>Try\<close>, \<^verbatim>\<open>TryExcept\<close>, \<^verbatim>\<open>BoolOp\<close> is traversed like any other node when lax mode is
  off: its children are visited in order. When lax mode is on, nothing below it is
  visited and the analysis state, with every flag, observation, alias and user
  definition, is the one before the node.
\<close>

theorem C8_lax_mode_skips_bodies:
  assumes "cls \<in> {''If'', ''IfExp'', ''For'', ''While'', ''Try'', ''TryExcept'', ''BoolOp''}"
  shows "(lax_mode cfg \<longrightarrow> visit cfg r (Node cls body) s = s) \<and>
         (\<not> lax_mode cfg \<longrightarrow>
            visit cfg r (Node cls body) s = generic_visit cfg r (Node cls body) s)"
proof -
  have cls: "cls \<in> set lax_classes"
    using assms by (simp add: lax_classes_def)
  have pre: "visit_pre r (Node cls body) s = s"
    using cls by (rule lax_class_pre)
  have d: "descends cfg (Node cls body) = (\<not> lax_mode cfg)"
    using cls by simp
  have "visit cfg r (Node cls body) s =
          (if lax_mode cfg then s else fold (visit cfg r) body s)"
    unfolding visit_unfold [of cfg r "Node cls body"] pre d by simp
  then show ?thesis
    by (simp add: generic_visit_def)
qed

theorem C8_lax_mode_skips_bodies_witness:
  "visit lax no_rules (Node ''If'' [Name ''long'' Load, Bytes]) init = init \<and>
   longv2 (visit strict no_rules (Node ''If'' [Name ''long'' Load, Bytes]) init)"
  using C8_lax_mode_skips_bodies [of "''If''" lax no_rules "[Name ''long'' Load, Bytes]" init]
        C8_lax_mode_skips_bodies [of "''If''" strict no_rules "[Name ''long'' Load, Bytes]" init]
  by (simp add: lax_def strict_def generic_visit_def visit_unfold)

text \<open>
  C10: a from-import whose module is absent (\<^verbatim>\<open>from . import x\<close>) records nothing. The
  handler returns at once: no module, member, imported-member or alias entry is added,
  the children are not traversed, and the analysis state is the one before the node.
\<close>

theorem C10_relative_import_records_nothing:
  "visit cfg r (ImportFrom None names) s = s"
  by (simp add: visit_unfold visit_ImportFrom_def)

section \<open>The embedding on the units of the tests\<close>

text \<open>The visitor and the resolver on units of \<^verbatim>\<open>tests/general.py\<close>, with the values that
  the tests expect: \<^verbatim>\<open>test_strftime_directives\<close>, \<^verbatim>\<open>test_modules\<close>, \<^verbatim>\<open>test_member_class\<close>,
  \<^verbatim>\<open>test_user_defined\<close>, \<^verbatim>\<open>test_ignore_modules_when_user_defined_funcs\<close>, \<^verbatim>\<open>test_longv2\<close>,
  \<^verbatim>\<open>test_format\<close> and \<^verbatim>\<open>test_detect_min_version\<close>.\<close>

lemma visitor_tests:
  "strftime_directives
     (visit strict no_rules
        (Node ''Module''
           [ImportFrom (Some ''datetime'') [(''datetime'', None)],
            Node ''Expr''
              [Call (Attribute (Call (Attribute (Name ''datetime'' Load) ''now'' Load) [] []) ''strftime'' Load)
                 [Str ''%A %d. %B %Y''] []]]) init)
     = [''%A'', ''%d'', ''%B'', ''%Y'']"
  "modules
     (visit strict no_rules
        (Node ''Module''
           [Import [(''ast'', None)], Import [(''sys'', None), (''argparse'', None)],
            ImportFrom (Some ''os'') [(''*'', None)]]) init)
     = [''ast'', ''sys'', ''argparse'', ''os'']"
  "members
     (visit strict test_rules
        (Node ''Module''
           [Import [(''abc'', None)],
            ClassDef ''a'' [Attribute (Name ''abc'' Load) ''ABC'' Load, Node ''Pass'' []]]) init)
     = [''abc.ABC'']"
  "user_defs
     (visit strict no_rules
        (Node ''Module''
           [FunctionDef ''hello'' (Arguments [] []) [Node ''Pass'' []] [] None,
            Node ''Expr'' [Call (Name ''hello2'' Load) [] []],
            ClassDef ''foo'' [Node ''Pass'' []]]) init)
     = [''hello'', ''foo'']"
  "modules
     (visit strict no_rules
        (Node ''Module''
           [Import [(''SimpleXMLRPCServer'', None)],
            FunctionDef ''SimpleXMLRPCServer'' (Arguments [] []) [Node ''Pass'' []] [] None,
            Assign [Name ''src'' Store] (Call (Name ''SimpleXMLRPCServer'' Load) [] [])]) init)
     = []"
  "longv2
     (visit strict no_rules
        (Node ''Module'' [Assign [Name ''n'' Store] (Call (Name ''long'' Load) [Node ''Num'' []] [])]) init)"
  "format27
     (visit strict no_rules
        (Node ''Module''
           [Node ''Expr''
              [Call (Name ''print'' Load)
                 [Call (Attribute (Str ''{}'') ''format'' Load) [Node ''Num'' []] []] []]]) init)"
  "\<not> format27
     (visit strict no_rules
        (Node ''Module''
           [Node ''Expr''
              [Call (Name ''print'' Load)
                 [Call (Attribute (Str ''{0}'') ''format'' Load) [Node ''Num'' []] []] []]]) init)"
  "minimum_versions test_rules
     (visit strict test_rules (Node ''Module'' [Import [(''abc'', None)]]) init)
     = Inr (Some (26 / 10), Some 3)"
  "minimum_versions test_rules
     (visit strict test_rules
        (Node ''Module''
           [Import [(''abc'', None)], ImportFrom (Some ''abc'') [(''ABC'', None)]]) init)
     = Inr (None, Some (34 / 10))"
  by code_simp+

section \<open>Shadowing by user definitions\<close>

text \<open>The index loops of \<^verbatim>\<open>__add_user_def\<close> delete exactly the entries equal to a
  user-defined name.\<close>

lemma del_matching_append:
  "del_matching ud (rev [0..<length xs]) (xs @ ys) = filter (\<lambda>x. x \<noteq> ud) xs @ ys"
proof (induction xs arbitrary: ys rule: rev_induct)
  case Nil
  then show ?case by simp
next
  case (snoc x xs)
  have "del_matching ud (rev [0..<length (xs @ [x])]) ((xs @ [x]) @ ys)
      = del_matching ud (rev [0..<length xs]) (xs @ (if x = ud then ys else x # ys))"
    by (simp add: nth_append)
  then show ?case
    using snoc.IH [of "if x = ud then ys else x # ys"] by simp
qed

lemma del_matching_filter:
  "del_matching ud (reverse_range xs) xs = filter (\<lambda>x. x \<noteq> ud) xs"
  using del_matching_append [of ud xs "[]"] by (simp add: reverse_range_def)

lemma retract_user_defs_more:
  "retract_user_defs uds s =
     s\<lparr>modules := filter (\<lambda>x. x \<notin> set uds) (modules s),
       members := filter (\<lambda>x. x \<notin> set uds) (members s)\<rparr>"
  by (induction uds arbitrary: s) (auto simp: del_matching_filter Let_def intro: filter_cong)

lemma fold_preserves:
  assumes "\<And>x s. I s \<Longrightarrow> I (f x s)" and "I s"
  shows "I (fold f xs s)"
  using assms(2) by (induction xs arbitrary: s) (simp_all add: assms(1))

lemma shadowed_fold:
  assumes "\<And>x s. shadowed name s \<Longrightarrow> shadowed name (f x s)" and "shadowed name s"
  shows "shadowed name (fold f xs s)"
  using assms by (rule fold_preserves)

lemma add_user_def_eq:
  "add_user_def name s =
     (let uds = (if name \<notin> set (user_defs s) then user_defs s @ [name] else user_defs s)
      in s\<lparr>user_defs := uds,
           modules := filter (\<lambda>x. x \<notin> set uds) (modules s),
           members := filter (\<lambda>x. x \<notin> set uds) (members s)\<rparr>)"
  by (simp add: add_user_def_def retract_user_defs_more Let_def)

lemma shadowed_add_user_def_self: "shadowed name (add_user_def name s)"
  by (auto simp: shadowed_def add_user_def_eq Let_def)

lemma shadowed_add_user_def: "shadowed name s \<Longrightarrow> shadowed name (add_user_def n s)"
  by (auto simp: shadowed_def add_user_def_eq Let_def)

lemma shadowed_add_module: "shadowed name s \<Longrightarrow> shadowed name (add_module m s)"
  by (auto simp: shadowed_def add_module_def)

lemma shadowed_add_member: "shadowed name s \<Longrightarrow> shadowed name (add_member r m s)"
  by (auto simp: shadowed_def add_member_def)

lemma shadowed_add_kwargs: "shadowed name (add_kwargs r f k s) = shadowed name s"
  by (auto simp: shadowed_def add_kwargs_def)

lemma shadowed_add_array_typecode: "shadowed name (add_array_typecode t s) = shadowed name s"
  by (auto simp: shadowed_def add_array_typecode_def)

lemma shadowed_add_strftime_directive: "shadowed name (add_strftime_directive t s) = shadowed name s"
  by (auto simp: shadowed_def add_strftime_directive_def)

lemma shadowed_add_name_res: "shadowed name (add_name_res a b s) = shadowed name s"
  by (auto simp: shadowed_def add_name_res_def)

lemma shadowed_updates [simp]:
  "shadowed name (s\<lparr>function_name := fn\<rparr>) = shadowed name s"
  "shadowed name (s\<lparr>printv2 := b\<rparr>) = shadowed name s"
  "shadowed name (s\<lparr>printv3 := b\<rparr>) = shadowed name s"
  "shadowed name (s\<lparr>format27 := b\<rparr>) = shadowed name s"
  "shadowed name (s\<lparr>longv2 := b\<rparr>) = shadowed name s"
  "shadowed name (s\<lparr>bytesv3 := b\<rparr>) = shadowed name s"
  "shadowed name (s\<lparr>fstrings := b\<rparr>) = shadowed name s"
  "shadowed name (s\<lparr>bool_const := b\<rparr>) = shadowed name s"
  "shadowed name (s\<lparr>annotations := b\<rparr>) = shadowed name s"
  "shadowed name (s\<lparr>var_annotations := b\<rparr>) = shadowed name s"
  "shadowed name (s\<lparr>coroutines := b\<rparr>) = shadowed name s"
  "shadowed name (s\<lparr>codecs_error_handlers := l\<rparr>) = shadowed name s"
  "shadowed name (s\<lparr>codecs_encodings := l\<rparr>) = shadowed name s"
  "shadowed name (s\<lparr>import_mem_mod := mp\<rparr>) = shadowed name s"
  "shadowed name (s\<lparr>module_as_name := mp\<rparr>) = shadowed name s"
  by (simp_all add: shadowed_def)

lemma shadowed_add_codecs_error_handler:
  "shadowed name s \<Longrightarrow> shadowed name (add_codecs_error_handler r f args kws s)"
  unfolding add_codecs_error_handler_def
  by (auto split: option.splits intro!: shadowed_fold)

lemma shadowed_add_codecs_encoding:
  "shadowed name s \<Longrightarrow> shadowed name (add_codecs_encoding r f args kws s)"
  unfolding add_codecs_encoding_def Let_def
  by (auto split: option.splits intro!: shadowed_fold)

lemma shadowed_check_codecs_function:
  "shadowed name s \<Longrightarrow> shadowed name (check_codecs_function r f args kws s)"
  by (simp add: check_codecs_function_def shadowed_add_codecs_error_handler shadowed_add_codecs_encoding)


lemma shadowed_add_user_def_node: "shadowed name s \<Longrightarrow> shadowed name (add_user_def_node t s)"
  by (induction t s rule: add_user_def_node.induct) (simp_all add: shadowed_add_user_def)

lemma shadowed_add_name_res_assign_node:
  "shadowed name s \<Longrightarrow> shadowed name (add_name_res_assign_node v ts s)"
proof (cases "value_name v")
  case None
  assume "shadowed name s"
  then show ?thesis by (simp add: add_name_res_assign_node_def None)
next
  case (Some vn)
  assume a: "shadowed name s"
  have "shadowed name (fold (\<lambda>target t. case target of Name target_name ctx \<Rightarrow> add_name_res target_name vn t
                                          | _ \<Rightarrow> t) ts s)"
    using a
  proof (rule shadowed_fold [rotated])
    fix x t assume "shadowed name t"
    then show "shadowed name (case x of Name target_name ctx \<Rightarrow> add_name_res target_name vn t | _ \<Rightarrow> t)"
      by (cases x) (simp_all add: shadowed_add_name_res)
  qed
  then show ?thesis by (simp add: add_name_res_assign_node_def Some)
qed

lemma shadowed_visit_Import: "shadowed name s \<Longrightarrow> shadowed name (visit_Import r names s)"
  unfolding visit_Import_def Let_def
  by (auto split: option.splits intro!: shadowed_fold shadowed_add_member shadowed_add_module)

lemma shadowed_visit_ImportFrom: "shadowed name s \<Longrightarrow> shadowed name (visit_ImportFrom r m names s)"
  unfolding visit_ImportFrom_def Let_def
  by (auto split: option.splits intro!: shadowed_fold shadowed_add_member shadowed_add_module)

lemma shadowed_array_args:
  "shadowed name s \<Longrightarrow>
   shadowed name (fold (\<lambda>arg t. case arg of Str typecode \<Rightarrow> add_array_typecode typecode t
                                                | _ \<Rightarrow> t) args s)"
proof (rule shadowed_fold)
  fix x t assume "shadowed name t"
  then show "shadowed name (case x of Str typecode \<Rightarrow> add_array_typecode typecode t | _ \<Rightarrow> t)"
    by (cases x) (simp_all add: shadowed_add_array_typecode)
qed

lemma shadowed_strftime_args:
  "shadowed name s \<Longrightarrow>
   shadowed name (fold (\<lambda>arg t. case str_value arg of
                                    Some text \<Rightarrow> fold add_strftime_directive (findall_directives text) t
                                  | None \<Rightarrow> t) args s)"
proof (rule shadowed_fold)
  fix x t assume "shadowed name t"
  then show "shadowed name (case str_value x of
                 Some text \<Rightarrow> fold add_strftime_directive (findall_directives text) t
               | None \<Rightarrow> t)"
    by (auto split: option.splits simp: shadowed_add_strftime_directive intro: shadowed_fold)
qed

lemma shadowed_visit_Call: "shadowed name s \<Longrightarrow> shadowed name (visit_Call r f args kws s)"
proof (cases f)
  case (Name i ctx)
  assume a: "shadowed name s"
  define sa where "sa = add_member r i (s\<lparr>function_name := Some i\<rparr>)"
  define sb where "sb = (case import_mem_mod sa i of
                          Some m \<Rightarrow> check_codecs_function r (m @ ''.'' @ i) args kws sa
                        | None \<Rightarrow>
                            (case module_as_name sa i of
                               Some name \<Rightarrow> check_codecs_function r name args kws sa
                             | None \<Rightarrow> sa))"
  have sa: "shadowed name sa"
    unfolding sa_def using a by (simp add: shadowed_add_member)
  have sb: "shadowed name sb"
    unfolding sb_def using sa by (simp add: shadowed_check_codecs_function split: option.splits)
  have "visit_Call r f args kws s =
          (if i = ''print'' then sb\<lparr>printv3 := True\<rparr>
           else if i = ''array'' \<or> module_as_name sb i = Some ''array.array''
           then fold (\<lambda>arg t. case arg of Str typecode \<Rightarrow> add_array_typecode typecode t
                                         | _ \<Rightarrow> t) args sb
           else sb)"
    unfolding visit_Call_def Name sa_def sb_def by (simp add: Let_def)
  then show ?thesis
    using sb by (simp add: shadowed_array_args)
next
  case (Attribute v attr ctx)
  assume a: "shadowed name s"
  define s1 where "s1 =
       (if attr = ''format'' \<and> (case v of Str t \<Rightarrow> contains ''{}'' t | _ \<Rightarrow> False)
        then s\<lparr>format27 := True\<rparr>
        else if attr = ''strftime'' \<or> attr = ''strptime''
        then fold (\<lambda>arg t. case str_value arg of
                              Some text \<Rightarrow> fold add_strftime_directive (findall_directives text) t
                            | None \<Rightarrow> t) args s
        else s)"
  have s1: "shadowed name s1"
    unfolding s1_def using a by (simp add: shadowed_strftime_args)
  have "visit_Call r f args kws s =
          check_codecs_function r (dotted_name (get_attribute_name f)) args kws
            (s1\<lparr>function_name := Some (dotted_name (get_attribute_name f))\<rparr>)"
    unfolding visit_Call_def Attribute s1_def by (simp add: Let_def)
  then show ?thesis
    using s1 by (simp add: shadowed_check_codecs_function)
qed (simp_all add: visit_Call_def)

lemma shadowed_attribute_modules_loop:
  "shadowed name s \<Longrightarrow> shadowed name (attribute_modules_loop r base rest i s)"
proof (induction r base rest i s rule: attribute_modules_loop.induct)
  case (1 r base rest i s)
  show ?case
    using "1.prems" "1.IH"
    by (subst attribute_modules_loop.simps)
       (simp add: Let_def shadowed_add_module shadowed_add_member)
qed

lemma shadowed_visit_Attribute: "shadowed name s \<Longrightarrow> shadowed name (visit_Attribute r n s)"
  unfolding visit_Attribute_def Let_def
  by (auto split: option.splits list.splits
      intro!: shadowed_add_member shadowed_attribute_modules_loop)

lemma shadowed_visit_keyword: "shadowed name s \<Longrightarrow> shadowed name (visit_keyword r a s)"
  unfolding visit_keyword_def Let_def
  by (auto split: option.splits list.splits simp: shadowed_add_kwargs)

lemma shadowed_targets:
  "shadowed name s \<Longrightarrow> shadowed name (fold add_user_def_node ts s)"
  by (erule shadowed_fold [rotated]) (rule shadowed_add_user_def_node)

lemma shadowed_visit_pre: "shadowed name s \<Longrightarrow> shadowed name (visit_pre r n s)"
  by (cases n)
     (simp_all add: shadowed_visit_Import shadowed_visit_ImportFrom shadowed_visit_Call
        shadowed_visit_Attribute shadowed_visit_keyword shadowed_add_user_def
        shadowed_add_user_def_node shadowed_add_name_res_assign_node shadowed_targets)

lemma shadowed_handle_FunctionDef:
  "shadowed name (handle_FunctionDef_annotations args returns s) = shadowed name s"
  by (cases args) (simp_all add: handle_FunctionDef_annotations_def)

lemma shadowed_visit_post: "shadowed name s \<Longrightarrow> shadowed name (visit_post n s)"
  by (cases n) (simp_all add: shadowed_handle_FunctionDef)

lemma traverse_preserves:
  assumes "\<And>n s. I s \<Longrightarrow> I (pre n s)"
    and "\<And>n s. I s \<Longrightarrow> I (post n s)"
    and "I s"
  shows "I (traverse pre post cfg n s)"
  using assms
proof (induction pre post cfg n s rule: traverse.induct)
  case (1 pre post cfg n s)
  have kids: "I (fold (traverse pre post cfg) xs t)"
    if "set xs \<subseteq> set (children n)" "descends cfg n" "I t" for xs t
    using that
  proof (induction xs arbitrary: t)
    case Nil
    then show ?case by simp
  next
    case (Cons x xs)
    have "I (traverse pre post cfg x t)"
      using "1.IH" [of x t] Cons.prems "1.prems"(1,2) by simp
    then show ?case
      using Cons by simp
  qed
  show ?case
    by (subst traverse.simps) (simp add: kids "1.prems")
qed

lemma shadowed_visit: "shadowed name s \<Longrightarrow> shadowed name (visit cfg r n s)"
  unfolding visit_def
  by (rule traverse_preserves) (simp_all add: shadowed_visit_pre shadowed_visit_post)

lemma shadowed_rejects:
  "shadowed name s \<Longrightarrow> add_module name s = s \<and> add_member r name s = s"
  by (simp add: shadowed_def add_module_def add_member_def)

lemma shadowed_fold_visit:
  "shadowed name s \<Longrightarrow> shadowed name (fold (visit cfg r) ns s)"
  by (erule shadowed_fold [rotated]) (rule shadowed_visit)

lemma shadowed_definition_node:
  assumes "shadowed name (visit_pre r n s)"
  shows "shadowed name (visit cfg r n s)"
  unfolding visit_unfold [of cfg r n s]
  using assms by (simp add: shadowed_visit_post shadowed_fold_visit)

text \<open>
  C4: marking a name as user-defined leaves no module or member observation of that
  spelling; a function definition, a class definition and an assignment to the name do
  so. From then on the name stays out of both sets whatever node is visited next, and an
  attempt to insert it as a module or as a member changes nothing.
\<close>

theorem C4_user_defined_names_stay_retracted:
  "shadowed name (add_user_def name s) \<and>
   shadowed name (visit cfg r (FunctionDef name args body decorator_list returns) s) \<and>
   shadowed name (visit cfg r (ClassDef name cs) s) \<and>
   shadowed name (visit cfg r (Assign [Name name ctx] v) s) \<and>
   (shadowed name t \<longrightarrow>
      shadowed name (fold (visit cfg r) ns t) \<and>
      add_module name t = t \<and> add_member r name t = t)"
proof -
  have "shadowed name (visit cfg r (Assign [Name name ctx] v) s)"
    by (rule shadowed_definition_node)
       (simp add: shadowed_add_name_res_assign_node shadowed_add_user_def_self)
  then show ?thesis
    using shadowed_add_user_def_self shadowed_fold_visit shadowed_rejects
    by (simp add: shadowed_definition_node)
qed

theorem C4_user_defined_names_stay_retracted_witness:
  "shadowed ''abc'' (add_user_def ''abc'' (visit strict test_rules (Import [(''abc'', None)]) init)) \<and>
   shadowed ''abc''
     (fold (visit strict test_rules)
        [Import [(''abc'', None)], Node ''Expr'' [Attribute (Name ''abc'' Load) ''ABC'' Load]]
        (add_user_def ''abc'' (visit strict test_rules (Import [(''abc'', None)]) init))) \<and>
   modules (visit strict test_rules (Import [(''abc'', None)]) init) = [''abc'']"
proof -
  have h: "shadowed ''abc''
             (add_user_def ''abc'' (visit strict test_rules (Import [(''abc'', None)]) init))"
    by code_simp
  have m: "modules (visit strict test_rules (Import [(''abc'', None)]) init) = [''abc'']"
    by code_simp
  show ?thesis
    using h m C4_user_defined_names_stay_retracted
      [where name = "''abc''" and cfg = strict and r = test_rules
         and s = "visit strict test_rules (Import [(''abc'', None)]) init"
         and t = "add_user_def ''abc'' (visit strict test_rules (Import [(''abc'', None)]) init)"
         and ns = "[Import [(''abc'', None)], Node ''Expr'' [Attribute (Name ''abc'' Load) ''ABC'' Load]]"]
    by blast
qed

section \<open>The resolver and the byte-string flag\<close>

lemma combine_slot_floor3: "floor3 v \<Longrightarrow> floor3 (combine_slot v w)"
  by (auto simp: floor3_def combine_slot_def split: option.splits)

lemma combine_result_floor3: "result_floor3 m \<Longrightarrow> result_floor3 (combine_result m vers)"
  by (auto simp: result_floor3_def combine_result_def combine_versions_def combine_slot_floor3
      split: sum.splits)

lemma flag_step_floor3: "result_floor3 m \<Longrightarrow> result_floor3 (flag_step b vers m)"
  by (simp add: flag_step_def combine_result_floor3)

lemma table_fold_floor3: "result_floor3 m \<Longrightarrow> result_floor3 (table_fold table keys m)"
  unfolding table_fold_def
  by (induction keys arbitrary: m) (auto simp: combine_result_floor3 split: option.splits)

lemma encodings_inner_floor3:
  "result_floor3 m \<Longrightarrow>
   result_floor3 (fold (\<lambda>(encs, vers) m. if P encs then combine_result m vers else m) table m)"
  by (induction table arbitrary: m) (auto simp: combine_result_floor3)

lemma encodings_fold_floor3: "result_floor3 m \<Longrightarrow> result_floor3 (encodings_fold table encodings m)"
  unfolding encodings_fold_def
  by (induction encodings arbitrary: m) (auto simp: encodings_inner_floor3)

lemma bytes_step_floor3: "result_floor3 (map_sum id (\<lambda>mins. (fst mins, Some 3)) m)"
  by (cases m) (simp_all add: result_floor3_def floor3_def)

lemma minimum_versions_floor3:
  assumes "bytesv3 s"
  shows "result_floor3 (minimum_versions r s)"
  unfolding minimum_versions_def Let_def using assms
  by (simp only: if_True)
     (intro table_fold_floor3 encodings_fold_floor3 flag_step_floor3 bytes_step_floor3)

text \<open>
  C5 (as stated): whenever the byte-string flag is set and no conflict is raised, the 2.x
  slot of the result is the excluded marker. It is not: the unit \<^verbatim>\<open>s = b'hello'\<close> sets the
  flag and resolves to \<open>(0, 3.0)\<close>, whose 2.x slot is "no constraint".
\<close>

theorem C5_bytes_flag_counterexample:
  "bytesv3 (visit strict no_rules (Node ''Module'' [Assign [Name ''s'' Store] Bytes]) init) \<and>
   minimum_versions no_rules
       (visit strict no_rules (Node ''Module'' [Assign [Name ''s'' Store] Bytes]) init)
     = Inr (Some 0, Some 3)"
  by code_simp

text \<open>
  C5 (amended): the byte-string flag sets the 3.x slot to 3.0 and leaves the 2.x slot
  alone. Whenever the flag is set and the resolver returns a pair, the 3.x slot of that
  pair is the excluded marker or at least 3.0; with this flag alone the pair is
  \<open>(0, 3.0)\<close>.
\<close>

theorem C5_bytes_flag_floor:
  "(bytesv3 s \<and> minimum_versions r s = Inr (v2, v3) \<longrightarrow>
      v3 = None \<or> (\<exists>x. v3 = Some x \<and> 3 \<le> x)) \<and>
   minimum_versions r (init\<lparr>bytesv3 := True\<rparr>) = Inr (Some 0, Some 3)"
proof -
  have "v3 = None \<or> (\<exists>x. v3 = Some x \<and> 3 \<le> x)"
    if "bytesv3 s" "minimum_versions r s = Inr (v2, v3)"
    using minimum_versions_floor3 [OF that(1), of r] that(2)
    by (auto simp: result_floor3_def floor3_def split: option.splits)
  moreover have "minimum_versions r (init\<lparr>bytesv3 := True\<rparr>) = Inr (Some 0, Some 3)"
    by (simp add: minimum_versions_def init_def flag_step_def table_fold_def encodings_fold_def)
  ultimately show ?thesis by blast
qed

theorem C5_bytes_flag_floor_witness:
  "bytesv3 (init\<lparr>bytesv3 := True, fstrings := True\<rparr>) \<and>
   minimum_versions no_rules (init\<lparr>bytesv3 := True, fstrings := True\<rparr>)
     = Inr (None, Some (36 / 10)) \<and>
   (3::rat) \<le> 36 / 10"
proof -
  have b: "bytesv3 (init\<lparr>bytesv3 := True, fstrings := True\<rparr>)"
    by simp
  have m: "minimum_versions no_rules (init\<lparr>bytesv3 := True, fstrings := True\<rparr>)
             = Inr (None, Some (36 / 10))"
    by code_simp
  show ?thesis
    using b m C5_bytes_flag_floor
      [where s = "init\<lparr>bytesv3 := True, fstrings := True\<rparr>" and r = no_rules
         and ?v2.0 = None and ?v3.0 = "Some (36 / 10)"]
    by simp
qed

section \<open>The empty-field format flag\<close>

lemma format27_add_module: "format27 (add_module m s) = format27 s"
  by (simp add: add_module_def)

lemma format27_add_member: "format27 (add_member r m s) = format27 s"
  by (simp add: add_member_def)

lemma format27_fold:
  assumes "\<And>x t. format27 (f x t) = format27 t"
  shows "format27 (fold f xs s) = format27 s"
  by (induction xs arbitrary: s) (simp_all add: assms)

lemma format27_add_codecs_error_handler:
  "format27 (add_codecs_error_handler r f args kws s) = format27 s"
proof (cases "CODECS_ERRORS_INDICES r f")
  case None
  then show ?thesis by (simp add: add_codecs_error_handler_def)
next
  case (Some idx)
  have "format27 (add_codecs_error_handler r f args kws s) =
        format27 (if 0 \<le> idx \<and> idx < int (length args)
                     then (case str_value (args ! nat idx) of
                             Some name \<Rightarrow>
                               s\<lparr>codecs_error_handlers := codecs_error_handlers s @ [name]\<rparr>
                           | None \<Rightarrow> s)
                     else s)"
    unfolding add_codecs_error_handler_def Some option.case Let_def
    by (rule format27_fold) (simp split: option.splits prod.splits)
  then show ?thesis
    by (simp split: option.splits)
qed


lemma format27_add_codecs_encoding:
  "format27 (add_codecs_encoding r f args kws s) = format27 s"
proof (cases "CODECS_ENCODINGS_INDICES r f")
  case None
  then show ?thesis by (simp add: add_codecs_encoding_def)
next
  case (Some idxs)
  show ?thesis
    unfolding add_codecs_encoding_def Some option.case
  proof (rule format27_fold)
    fix idx t
    show "format27
        (let s1 = if 0 \<le> idx \<and> idx < int (length args)
                  then case str_value (args ! nat idx) of None \<Rightarrow> t
                       | Some name \<Rightarrow> t\<lparr>codecs_encodings := codecs_encodings t @ [name]\<rparr>
                  else t
         in fold (\<lambda>(arg, v) t.
                     if arg \<in> {Some ''encoding'', Some ''data_encoding'', Some ''file_encoding''}
                     then case str_value v of None \<Rightarrow> t
                          | Some name \<Rightarrow> t\<lparr>codecs_encodings := codecs_encodings t @ [name]\<rparr>
                     else t)
             kws s1) = format27 t"
      unfolding Let_def
      by (subst format27_fold) (simp_all split: option.splits prod.splits)
  qed
qed

lemma format27_check_codecs_function:
  "format27 (check_codecs_function r f args kws s) = format27 s"
  by (simp add: check_codecs_function_def format27_add_codecs_encoding
      format27_add_codecs_error_handler)


lemma format27_attribute_modules_loop:
  "format27 (attribute_modules_loop r base rest i s) = format27 s"
proof (induction r base rest i s rule: attribute_modules_loop.induct)
  case (1 r base rest i s)
  show ?case
  proof (cases "i < length (modules s)")
    case True
    then show ?thesis
      using "1.IH" [OF True refl]
      by (subst attribute_modules_loop.simps)
         (simp add: Let_def format27_add_module format27_add_member)
  next
    case False
    then show ?thesis
      by (subst attribute_modules_loop.simps) simp
  qed
qed

lemma format27_visit_Attribute: "format27 (visit_Attribute r n s) = format27 s"
proof (cases "get_attribute_name n")
  case Nil
  then show ?thesis by (simp add: visit_Attribute_def)
next
  case (Cons base rest)
  show ?thesis
    unfolding visit_Attribute_def Cons list.case Let_def
    by (simp add: format27_add_member format27_attribute_modules_loop split: option.splits)
qed

lemma format27_format_call:
  "format27 (visit cfg r (Call (Attribute (Str t) ''format'' ctx) [Name x ctx'] []) s)
     = (format27 s \<or> contains ''{}'' t)"
proof -
  have attr: "format27 (visit cfg r (Attribute (Str t) ''format'' ctx) u) = format27 u" for u
    by (simp add: visit_unfold format27_visit_Attribute)
  have name: "format27 (visit cfg r (Name x ctx') u) = format27 u" for u
    by (simp add: visit_unfold)
  have pre: "format27 (visit_Call r (Attribute (Str t) ''format'' ctx) [Name x ctx'] [] s)
               = (format27 s \<or> contains ''{}'' t)"
    by (simp add: visit_Call_def Let_def format27_check_codecs_function)
  show ?thesis
    by (simp add: visit_unfold [of cfg r "Call (Attribute (Str t) ''format'' ctx) [Name x ctx'] []"]
        attr name pre)
qed

text \<open>
  C9: visiting the call \<^verbatim>\<open>"{}".format(x)\<close> sets the empty-field format flag, and visiting
  \<^verbatim>\<open>"{0}".format(x)\<close> leaves the flag as it was. For any string-literal receiver the flag
  is set exactly if the literal contains \<^verbatim>\<open>{}\<close>.
\<close>

theorem C9_empty_field_format_flag:
  "format27 (visit cfg r (Call (Attribute (Str ''{}'') ''format'' ctx) [Name x ctx'] []) s) \<and>
   format27 (visit cfg r (Call (Attribute (Str ''{0}'') ''format'' ctx) [Name x ctx'] []) s)
     = format27 s \<and>
   format27 (visit cfg r (Call (Attribute (Str t) ''format'' ctx) [Name x ctx'] []) s)
     = (format27 s \<or> contains ''{}'' t)"
  by (simp add: format27_format_call)

section \<open>Observations recorded twice\<close>

text \<open>
  C3 (evaluation of the code): \<^verbatim>\<open>__add_strftime_directive\<close> and \<^verbatim>\<open>__add_member\<close> append
  without looking for the entry, unlike \<^verbatim>\<open>__add_module\<close>, \<^verbatim>\<open>__add_kwargs\<close> and
  \<^verbatim>\<open>__add_array_typecode\<close>. The unit \<^verbatim>\<open>d.strftime('%Y %Y')\<close> records the directive \<^verbatim>\<open>%Y\<close>
  twice, and importing \<^verbatim>\<open>ABC\<close> from \<^verbatim>\<open>abc\<close> twice records the member \<^verbatim>\<open>abc.ABC\<close> twice.
\<close>

theorem C3_observations_recorded_twice:
  "strftime_directives
     (visit strict no_rules
        (Node ''Module'' [Node ''Expr''
           [Call (Attribute (Name ''d'' Load) ''strftime'' Load) [Str ''%Y %Y''] []]]) init)
     = [''%Y'', ''%Y''] \<and>
   members
     (visit strict test_rules
        (Node ''Module'' [ImportFrom (Some ''abc'') [(''ABC'', None)],
                          ImportFrom (Some ''abc'') [(''ABC'', None)]]) init)
     = [''abc.ABC'', ''abc.ABC'']"
  by code_simp

section \<open>Named expressions\<close>

text \<open>
  C7 (evaluation of the code): the visitor has no flag for named expressions and no
  handler for the \<^verbatim>\<open>NamedExpr\<close> class. Visiting \<^verbatim>\<open>(b := a)\<close> changes nothing, and the unit of
  \<^verbatim>\<open>test_named_expressions\<close> resolves to \<open>(2.0, 3.0)\<close>, from its call of \<^verbatim>\<open>print\<close>, with no
  trace of a 3.8 requirement.
\<close>

theorem C7_named_expression_not_detected:
  "visit cfg r (Node ''NamedExpr'' [Name ''b'' Store, Name ''a'' Load]) s = s \<and>
   minimum_versions no_rules
     (visit strict no_rules
        (Node ''Module''
           [Assign [Name ''a'' Store] (Constant CNum),
            Node ''If''
              [Node ''Compare''
                 [Node ''NamedExpr'' [Name ''b'' Store, Name ''a'' Load], Node ''Eq'' [], Constant CNum],
               Node ''Expr'' [Call (Name ''print'' Load) [Name ''b'' Load] []]]]) init)
     = Inr (Some 2, Some 3)"
proof -
  have "visit cfg r (Node ''NamedExpr'' [Name ''b'' Store, Name ''a'' Load]) s = s"
    by (simp add: visit_unfold lax_classes_def no_generic_visit_def)
  moreover have "minimum_versions no_rules
     (visit strict no_rules
        (Node ''Module''
           [Assign [Name ''a'' Store] (Constant CNum),
            Node ''If''
              [Node ''Compare''
                 [Node ''NamedExpr'' [Name ''b'' Store, Name ''a'' Load], Node ''Eq'' [], Constant CNum],
               Node ''Expr'' [Call (Name ''print'' Load) [Name ''b'' Load] []]]]) init)
     = Inr (Some 2, Some 3)"
    by code_simp
  ultimately show ?thesis by (rule conjI)
qed

section \<open>Which nodes the traversal dispatches\<close>

lemma dispatched_acc:
  "traverse (\<lambda>m log. log @ [m]) (\<lambda>m log. log) cfg n acc
     = acc @ traverse (\<lambda>m log. log @ [m]) (\<lambda>m log. log) cfg n []"
proof (induction n arbitrary: acc rule: nodes.induct)
  case (1 n)
  let ?T = "traverse (\<lambda>m log. log @ [m]) (\<lambda>m log. log) cfg"
  have kids: "fold ?T xs a = a @ fold ?T xs []"
    if "set xs \<subseteq> set (children n)" for xs a
    using that
  proof (induction xs arbitrary: a)
    case Nil
    then show ?case by simp
  next
    case (Cons x xs)
    have x: "?T x b = b @ ?T x []" for b
      using "1.IH" [of x b] Cons.prems by simp
    have "fold ?T (x # xs) a = fold ?T xs (a @ ?T x [])"
      using x [of a] by simp
    also have "\<dots> = (a @ ?T x []) @ fold ?T xs []"
      using Cons.IH [of "a @ ?T x []"] Cons.prems by simp
    also have "\<dots> = a @ (?T x [] @ fold ?T xs [])"
      by simp
    also have "?T x [] @ fold ?T xs [] = fold ?T xs (?T x [])"
      using Cons.IH [of "?T x []"] Cons.prems by simp
    finally show ?case by simp
  qed
  have unfold: "?T n a = (if descends cfg n then fold ?T (children n) (a @ [n]) else a @ [n])"
    for a
    by (subst traverse.simps) simp
  show ?case
    unfolding unfold [of acc] unfold [of "[]"]
    using kids [of "children n" "acc @ [n]"] kids [of "children n" "[n]"] by simp
qed

lemma dispatched_fold:
  "fold (traverse (\<lambda>m log. log @ [m]) (\<lambda>m log. log) cfg) xs acc
     = acc @ concat (map (dispatched cfg) xs)"
proof (induction xs arbitrary: acc)
  case Nil
  then show ?case by simp
next
  case (Cons x xs)
  show ?case
    using dispatched_acc [of cfg x acc] by (simp add: Cons.IH dispatched_def)
qed

lemma dispatched_unfold:
  "dispatched cfg n =
     n # (if descends cfg n then concat (map (dispatched cfg) (children n)) else [])"
  unfolding dispatched_def [of cfg n]
  by (subst traverse.simps) (simp add: dispatched_fold)

lemma subseq_concat_map:
  assumes "\<And>x. x \<in> set xs \<Longrightarrow> subseq (f x) (g x)"
  shows "subseq (concat (map f xs)) (concat (map g xs))"
  using assms by (induction xs) (auto intro: list_emb_append_mono)

lemma dispatched_subseq: "subseq (dispatched cfg n) (nodes n)"
proof (induction n rule: nodes.induct)
  case (1 n)
  have "subseq (concat (map (dispatched cfg) (children n))) (concat (map nodes (children n)))"
    by (rule subseq_concat_map) (rule "1.IH")
  then show ?case
    by (subst dispatched_unfold, subst nodes.simps) simp
qed

lemma dispatched_all:
  assumes "\<And>m. m \<in> set (nodes n) \<Longrightarrow> descends cfg m \<or> children m = []"
  shows "dispatched cfg n = nodes n"
  using assms
proof (induction n rule: nodes.induct)
  case (1 n)
  have self: "n \<in> set (nodes n)"
    by (subst nodes.simps) simp
  have sub: "set (nodes c) \<subseteq> set (nodes n)" if "c \<in> set (children n)" for c
    using that by (subst (2) nodes.simps) auto
  have kids: "map (dispatched cfg) (children n) = map nodes (children n)"
    using "1.IH" "1.prems" sub by (intro map_cong refl) blast
  show ?case
    using "1.prems" [OF self]
    by (subst dispatched_unfold, subst nodes.simps) (auto simp: kids)
qed

lemma descends_by_class:
  assumes "\<not> lax_mode cfg"
  shows "descends cfg n \<longleftrightarrow>
     class_name n \<notin>
       {''ImportFrom'', ''Name'', ''Attribute'', ''keyword'', ''Bytes'', ''Constant'',
        ''JoinedStr'', ''NameConstant'', ''alias'', ''Load'', ''Store'', ''Pass'', ''Num'',
        ''Not'', ''Add'', ''Sub'', ''Mult'', ''Div'', ''BitAnd'', ''Or'', ''BitOr'', ''Eq'',
        ''NotEq'', ''Lt'', ''Gt'', ''In'', ''Is'', ''Continue'', ''Break'', ''Mod''}"
  using assms by (cases n) (auto simp: lax_classes_def no_generic_visit_def)

lemma dispatched_alone:
  assumes "dispatched cfg m = [m] \<longrightarrow> children m = []"
  shows "descends cfg m \<or> children m = []"
proof (cases "descends cfg m")
  case True
  then show ?thesis by simp
next
  case False
  then have "dispatched cfg m = [m]"
    by (subst dispatched_unfold) simp
  then show ?thesis
    using assms by simp
qed

text \<open>
  C6 (as stated): with lax mode off, every node of the tree is dispatched exactly once.
  It is not: \<^verbatim>\<open>visit_Attribute\<close> does not traverse its children. In \<^verbatim>\<open>long(1).real\<close> only
  the attribute node is dispatched; the call, the name \<^verbatim>\<open>long\<close>, the number and the two
  expression contexts are skipped, and the legacy-long flag, which the call alone would
  set, stays unset.
\<close>

theorem C6_every_node_counterexample:
  "\<not> lax_mode strict \<and>
   dispatched strict (Attribute (Call (Name ''long'' Load) [Node ''Num'' []] []) ''real'' Load)
     = [Attribute (Call (Name ''long'' Load) [Node ''Num'' []] []) ''real'' Load] \<and>
   nodes (Attribute (Call (Name ''long'' Load) [Node ''Num'' []] []) ''real'' Load)
     = [Attribute (Call (Name ''long'' Load) [Node ''Num'' []] []) ''real'' Load,
        Call (Name ''long'' Load) [Node ''Num'' []] [], Name ''long'' Load, Load,
        Node ''Num'' [], Load] \<and>
   \<not> longv2 (visit strict no_rules
               (Attribute (Call (Name ''long'' Load) [Node ''Num'' []] []) ''real'' Load) init) \<and>
   longv2 (visit strict no_rules (Call (Name ''long'' Load) [Node ''Num'' []] []) init)"
  by code_simp

text \<open>
  C6 (amended): with lax mode off, the traversal dispatches a node and then, in order,
  the traversals of its children, unless the class of the node is \<^verbatim>\<open>ImportFrom\<close>,
  \<^verbatim>\<open>Name\<close>, \<^verbatim>\<open>Attribute\<close>, \<^verbatim>\<open>keyword\<close>, \<^verbatim>\<open>Bytes\<close>, \<^verbatim>\<open>Constant\<close>, \<^verbatim>\<open>JoinedStr\<close>,
  \<^verbatim>\<open>NameConstant\<close> or one of the ignored classes \<^verbatim>\<open>alias\<close>, \<^verbatim>\<open>Load\<close>, \<^verbatim>\<open>Store\<close>, \<^verbatim>\<open>Pass\<close>,
  \<^verbatim>\<open>Num\<close>, \<^verbatim>\<open>Not\<close>, \<^verbatim>\<open>Add\<close>, \<^verbatim>\<open>Sub\<close>, \<^verbatim>\<open>Mult\<close>, \<^verbatim>\<open>Div\<close>, \<^verbatim>\<open>BitAnd\<close>, \<^verbatim>\<open>Or\<close>, \<^verbatim>\<open>BitOr\<close>,
  \<^verbatim>\<open>Eq\<close>, \<^verbatim>\<open>NotEq\<close>, \<^verbatim>\<open>Lt\<close>, \<^verbatim>\<open>Gt\<close>, \<^verbatim>\<open>In\<close>, \<^verbatim>\<open>Is\<close>, \<^verbatim>\<open>Continue\<close>, \<^verbatim>\<open>Break\<close>, \<^verbatim>\<open>Mod\<close>:
  then nothing below the node is dispatched. In every mode the dispatched nodes are a
  subsequence of the nodes of the tree, so each node is dispatched at most once and in
  depth-first order; and a tree in which every node that is dispatched alone is a leaf
  is dispatched completely, each node exactly once.
\<close>

theorem C6_dispatch_at_most_once:
  "(\<not> lax_mode cfg \<longrightarrow>
      dispatched cfg n =
        n # (if class_name n \<in>
                  {''ImportFrom'', ''Name'', ''Attribute'', ''keyword'', ''Bytes'', ''Constant'',
                   ''JoinedStr'', ''NameConstant'', ''alias'', ''Load'', ''Store'', ''Pass'',
                   ''Num'', ''Not'', ''Add'', ''Sub'', ''Mult'', ''Div'', ''BitAnd'', ''Or'',
                   ''BitOr'', ''Eq'', ''NotEq'', ''Lt'', ''Gt'', ''In'', ''Is'', ''Continue'',
                   ''Break'', ''Mod''}
             then [] else concat (map (dispatched cfg) (children n)))) \<and>
   subseq (dispatched cfg n) (nodes n) \<and>
   ((\<forall>m \<in> set (nodes n). dispatched cfg m = [m] \<longrightarrow> children m = []) \<longrightarrow>
      dispatched cfg n = nodes n)"
proof (intro conjI impI)
  define S where "S =
                  {''ImportFrom'', ''Name'', ''Attribute'', ''keyword'', ''Bytes'', ''Constant'',
                   ''JoinedStr'', ''NameConstant'', ''alias'', ''Load'', ''Store'', ''Pass'',
                   ''Num'', ''Not'', ''Add'', ''Sub'', ''Mult'', ''Div'', ''BitAnd'', ''Or'',
                   ''BitOr'', ''Eq'', ''NotEq'', ''Lt'', ''Gt'', ''In'', ''Is'', ''Continue'',
                   ''Break'', ''Mod''}"
  assume "\<not> lax_mode cfg"
  then have d: "descends cfg n \<longleftrightarrow> class_name n \<notin> S"
    unfolding S_def by (rule descends_by_class)
  have "dispatched cfg n =
          n # (if class_name n \<in> S then [] else concat (map (dispatched cfg) (children n)))"
    by (subst dispatched_unfold) (simp add: d)
  then show "dispatched cfg n =
        n # (if class_name n \<in>
                  {''ImportFrom'', ''Name'', ''Attribute'', ''keyword'', ''Bytes'', ''Constant'',
                   ''JoinedStr'', ''NameConstant'', ''alias'', ''Load'', ''Store'', ''Pass'',
                   ''Num'', ''Not'', ''Add'', ''Sub'', ''Mult'', ''Div'', ''BitAnd'', ''Or'',
                   ''BitOr'', ''Eq'', ''NotEq'', ''Lt'', ''Gt'', ''In'', ''Is'', ''Continue'',
                   ''Break'', ''Mod''}
             then [] else concat (map (dispatched cfg) (children n)))"
    unfolding S_def .
next
  show "subseq (dispatched cfg n) (nodes n)"
    by (rule dispatched_subseq)
next
  assume "\<forall>m \<in> set (nodes n). dispatched cfg m = [m] \<longrightarrow> children m = []"
  then show "dispatched cfg n = nodes n"
    by (intro dispatched_all dispatched_alone) blast
qed

theorem C6_dispatch_at_most_once_witness:
  "dispatched strict (Node ''Module'' [Node ''Pass'' [], Node ''Expr'' [Str ''doc'']])
     = [Node ''Module'' [Node ''Pass'' [], Node ''Expr'' [Str ''doc'']], Node ''Pass'' [],
        Node ''Expr'' [Str ''doc''], Str ''doc''] \<and>
   nodes (Node ''Module'' [Node ''Pass'' [], Node ''Expr'' [Str ''doc'']])
     = [Node ''Module'' [Node ''Pass'' [], Node ''Expr'' [Str ''doc'']], Node ''Pass'' [],
        Node ''Expr'' [Str ''doc''], Str ''doc'']"
proof -
  have l: "\<not> lax_mode strict"
    by (simp add: strict_def)
  have h: "\<forall>m \<in> set (nodes (Node ''Module'' [Node ''Pass'' [], Node ''Expr'' [Str ''doc'']])).
             dispatched strict m = [m] \<longrightarrow> children m = []"
    by code_simp
  have n: "nodes (Node ''Module'' [Node ''Pass'' [], Node ''Expr'' [Str ''doc'']])
     = [Node ''Module'' [Node ''Pass'' [], Node ''Expr'' [Str ''doc'']], Node ''Pass'' [],
        Node ''Expr'' [Str ''doc''], Str ''doc'']"
    by code_simp
  show ?thesis
    using l h n C6_dispatch_at_most_once
      [where cfg = strict and n = "Node ''Module'' [Node ''Pass'' [], Node ''Expr'' [Str ''doc'']]"]
    by simp
qed

end
